theory Spec2Isabelle
  imports Main "HOL-Library.Multiset"
begin

section \<open>Data model\<close>

text \<open>
  The queue engine of \<^verbatim>\<open>myCustomWatcher.ts\<close> (classes \<^verbatim>\<open>QueueSaver\<close>,
  \<^verbatim>\<open>DefaultQueueStore\<close>, \<^verbatim>\<open>Queue\<close>) and the interfaces of the types file
  (\<^verbatim>\<open>StoredQueue\<close>, \<^verbatim>\<open>ManagerQueueOptions\<close>, \<^verbatim>\<open>QueueChangesWatcher\<close>).

  A duration, and an index of \<^verbatim>\<open>moveTrack\<close> or \<^verbatim>\<open>replaceTrack\<close>, is an integer or NaN
  (\<open>jsnumber\<close>): the source tests a duration with \<^verbatim>\<open>isNaN\<close>, and NaN passes the guards
  of the two methods. The other numbers (the index of \<^verbatim>\<open>add\<close>, the index and amount of
  \<^verbatim>\<open>splice\<close>, the indices of \<^verbatim>\<open>remove\<close>, the cap) are integers (\<^typ>\<open>int\<close>).
  Non-integral and infinite numbers are outside the model. The field \<^verbatim>\<open>info.identifier\<close> is
  \<open>trackIdentifier\<close> here (\<open>identifier\<close> is a keyword).
\<close>

datatype jsnumber = Num int | NaN

record TrackInfo =
  trackIdentifier :: "string option"
  uri :: "string option"
  title :: "string option"
  isrc :: "string option"
  artworkUrl :: "string option"
  duration :: "jsnumber option"

text \<open>
  \<^verbatim>\<open>Track | UnresolvedTrack\<close>: the declarations are in \<^verbatim>\<open>./Types/Track\<close>, which is not
  among the sources. The fields below are the ones the queue reads; \<open>kind\<close> is the tag
  of the union, which the source observes only through \<^verbatim>\<open>ManagerUtils.isTrack\<close> and
  \<^verbatim>\<open>ManagerUtils.isUnresolvedTrack\<close>.
\<close>

datatype TrackKind = Resolved | Unresolved

record Track =
  kind :: TrackKind
  encoded :: "string option"
  info :: "TrackInfo option"

text \<open>
  The values a caller can hand to \<^verbatim>\<open>add\<close>, \<^verbatim>\<open>splice\<close> and \<^verbatim>\<open>remove\<close>: a track, a
  number, an array of such values (nested to any depth), or nothing.
\<close>

datatype jsval = TrackV Track | NumV int | ArrV "jsval list" | Undefined

record StoredQueue =
  current :: "Track option"
  previous :: "Track list"
  tracks :: "Track list"

text \<open>\<^verbatim>\<open>Partial<StoredQueue>\<close>, what the store hands back: every field may be missing.\<close>

record PartialStoredQueue =
  pCurrent :: "Track option"
  pPrevious :: "Track list option"
  pTracks :: "Track list option"

text \<open>
  A call of a watcher callback, with its arguments in the order of the interface
  \<^verbatim>\<open>QueueChangesWatcher\<close>. The position of \<^verbatim>\<open>tracksRemoved\<close> is
  \<^verbatim>\<open>number | number[]\<close>.
\<close>

datatype position = Pos int | PosList "int list"

datatype event =
    Shuffled string "StoredQueue option" StoredQueue
  | TracksAdd string "Track list" int "StoredQueue option" StoredQueue
  | TracksRemoved string "Track list" position "StoredQueue option" StoredQueue

text \<open>
  A callback returns nothing; what the queue can observe of it is whether it returned
  or threw. Callbacks are taken to leave their arguments alone.
\<close>

datatype cbResult = Returns | Throws

record QueueChangesWatcher =
  tracksAdd :: "(event \<Rightarrow> cbResult) option"
  tracksRemoved :: "(event \<Rightarrow> cbResult) option"
  shuffled :: "(event \<Rightarrow> cbResult) option"

text \<open>
  \<^verbatim>\<open>ManagerQueueOptions\<close>, with \<open>optMaxPreviousTracks\<close> for the optional
  \<^verbatim>\<open>maxPreviousTracks\<close>. The field \<^verbatim>\<open>queueStore\<close> is left out: the contents of the
  store are the state the operations below thread through.
\<close>

record ManagerQueueOptions =
  optMaxPreviousTracks :: "int option"
  queueChangesWatcher :: "QueueChangesWatcher option"

text \<open>
  The classes \<^verbatim>\<open>QueueSaver\<close> (its \<^verbatim>\<open>options.maxPreviousTracks\<close>) and \<^verbatim>\<open>Queue\<close> (its
  fields \<^verbatim>\<open>current\<close>, \<^verbatim>\<open>options.maxPreviousTracks\<close>, \<^verbatim>\<open>guildId\<close>, \<^verbatim>\<open>QueueSaver\<close> and
  \<^verbatim>\<open>queueChanges\<close>; a field that is \<^verbatim>\<open>null\<close> or \<^verbatim>\<open>undefined\<close> is \<open>None\<close>). The methods
  \<^verbatim>\<open>_load\<close>, \<^verbatim>\<open>_save\<close> and \<^verbatim>\<open>_snapshot\<close> are \<open>load\<close>, \<open>save\<close> and \<open>snapshot\<close> below.
\<close>

record QueueSaver =
  saverMaxPreviousTracks :: int

record Queue =
  qcurrent :: "Track option"
  maxPreviousTracks :: int
  guildId :: string
  queueSaver :: "QueueSaver option"
  queueChanges :: "QueueChangesWatcher option"

text \<open>
  The state outside the \<^verbatim>\<open>Queue\<close> object: the documents of the store by guild id, the
  number of \<^verbatim>\<open>QueueSaver.set\<close> calls made so far, and the watcher calls made so far.
  One operation runs from its load to its save without another one in between.

  The store is modelled by value: \<^verbatim>\<open>_load\<close> gets a copy of the stored lists, and the
  store changes at \<^verbatim>\<open>set\<close> only, as with a store behind \<^verbatim>\<open>stringify\<close> and \<^verbatim>\<open>parse\<close>
  (the Redis the comments of \<^verbatim>\<open>Queue\<close> name). \<^verbatim>\<open>DefaultQueueStore\<close> hands out the stored
  arrays themselves, so with it a mutation in place shows in the store before \<^verbatim>\<open>_save\<close>
  runs. The statements below read the store either after a save or after a call that
  has mutated nothing, where the two agree.
\<close>

record world =
  store :: "string \<Rightarrow> PartialStoredQueue option"
  setCalls :: nat
  notified :: "event list"

datatype error = TypeError | WatcherError

section \<open>Array primitives\<close>

text \<open>\<^verbatim>\<open>Array.prototype.splice(start, deleteCount, ...items)\<close>: the removed elements and the array afterwards.\<close>

definition spliceStart :: "int \<Rightarrow> nat \<Rightarrow> nat" where
  "spliceStart start len =
     (if start < 0 then nat (max (int len + start) 0) else min (nat start) len)"

definition jsSplice :: "int \<Rightarrow> int \<Rightarrow> 'a list \<Rightarrow> 'a list \<Rightarrow> 'a list \<times> 'a list" where
  "jsSplice start deleteCount items xs =
     (let s = spliceStart start (length xs);
          d = min (nat (max deleteCount 0)) (length xs - s)
      in (take d (drop s xs), take s xs @ items @ drop (s + d) xs))"

text \<open>\<^verbatim>\<open>[a[i], a[j]] = [a[j], a[i]]\<close>, for indices inside the array.\<close>

definition swapAt :: "nat \<Rightarrow> nat \<Rightarrow> 'a list \<Rightarrow> 'a list" where
  "swapAt i j xs = xs[i := xs ! j, j := xs ! i]"

text \<open>\<^verbatim>\<open>Array.prototype.flat(depth)\<close>.\<close>

fun jsFlat :: "nat \<Rightarrow> jsval list \<Rightarrow> jsval list" where
  "jsFlat 0 xs = xs"
| "jsFlat (Suc d) xs = concat (map (\<lambda>x. case x of ArrV ys \<Rightarrow> jsFlat d ys | _ \<Rightarrow> [x]) xs)"

text \<open>\<^verbatim>\<open>Array.prototype.findIndex\<close>: \<open>-1\<close> when no element satisfies the predicate.\<close>

fun findIndex :: "('a \<Rightarrow> bool) \<Rightarrow> 'a list \<Rightarrow> int" where
  "findIndex p [] = -1"
| "findIndex p (x # xs) =
     (if p x then 0 else (let r = findIndex p xs in if r < 0 then -1 else r + 1))"

section \<open>Track predicates\<close>

text \<open>
  Modelled from the spec: \<^verbatim>\<open>ManagerUtils.isTrack\<close> and \<^verbatim>\<open>ManagerUtils.isUnresolvedTrack\<close>
  (imported from \<^verbatim>\<open>./Utils\<close>, not among the sources). The spec calls
  \<^verbatim>\<open>Track | UnresolvedTrack\<close> a tagged union told apart by these two predicates, so each
  reads the tag; a number, an array or a missing value satisfies neither.
\<close>

definition isTrack :: "jsval \<Rightarrow> bool" where
  "isTrack v = (case v of TrackV t \<Rightarrow> kind t = Resolved | _ \<Rightarrow> False)"

definition isUnresolvedTrack :: "jsval \<Rightarrow> bool" where
  "isUnresolvedTrack v = (case v of TrackV t \<Rightarrow> kind t = Unresolved | _ \<Rightarrow> False)"

text \<open>\<^verbatim>\<open>track.info?.duration\<close>.\<close>

definition durationOf :: "Track \<Rightarrow> jsnumber option" where
  "durationOf t = (case info t of None \<Rightarrow> None | Some i \<Rightarrow> duration i)"

text \<open>\<^verbatim>\<open>!duration\<close>, \<^verbatim>\<open>isNaN(duration)\<close> and \<^verbatim>\<open>duration < 10000\<close> on a value that may be undefined.\<close>

definition jsNot :: "jsnumber option \<Rightarrow> bool" where
  "jsNot d = (case d of None \<Rightarrow> True | Some NaN \<Rightarrow> True | Some (Num n) \<Rightarrow> n = 0)"

definition jsIsNaN :: "jsnumber option \<Rightarrow> bool" where
  "jsIsNaN d = (case d of None \<Rightarrow> True | Some NaN \<Rightarrow> True | Some (Num n) \<Rightarrow> False)"

definition jsLess :: "jsnumber option \<Rightarrow> int \<Rightarrow> bool" where
  "jsLess d b = (case d of None \<Rightarrow> False | Some NaN \<Rightarrow> False | Some (Num n) \<Rightarrow> n < b)"

text \<open>\<^verbatim>\<open>Queue.isValid\<close>.\<close>

definition isValid :: "Track \<Rightarrow> bool" where
  "isValid track =
     (if isTrack (TrackV track) then
        (if jsNot (durationOf track) \<or> jsIsNaN (durationOf track) \<or> jsLess (durationOf track) 10000
         then False else True)
      else True)"

text \<open>
  The first statement of \<^verbatim>\<open>add\<close> (and the same expression in \<^verbatim>\<open>splice\<close>):
  \<^verbatim>\<open>(Array.isArray(T) ? T : [T]).flat(2).filter(isTrack || isUnresolvedTrack).filter(isValid)\<close>.
  What passes the first filter is a track, and \<open>asTracks\<close> reads the list at that type.
\<close>

definition toArray :: "jsval \<Rightarrow> jsval list" where
  "toArray v = (case v of ArrV xs \<Rightarrow> xs | _ \<Rightarrow> [v])"

fun asTracks :: "jsval list \<Rightarrow> Track list" where
  "asTracks [] = []"
| "asTracks (TrackV t # vs) = t # asTracks vs"
| "asTracks (v # vs) = asTracks vs"

definition validTracksOf :: "jsval \<Rightarrow> Track list" where
  "validTracksOf TrackOrTracks =
     filter isValid
       (asTracks (filter (\<lambda>v. isTrack v \<or> isUnresolvedTrack v) (jsFlat 2 (toArray TrackOrTracks))))"

text \<open>
  The match rule of \<^verbatim>\<open>remove\<close>. \<open>present\<close> is the truthiness of an optional string
  (\<^verbatim>\<open>t.encoded && ...\<close>): defined and not empty. \<open>infoField f t\<close> is \<^verbatim>\<open>t.info?.f\<close>.
\<close>

definition present :: "string option \<Rightarrow> bool" where
  "present s = (case s of None \<Rightarrow> False | Some x \<Rightarrow> (if x = [] then False else True))"

definition infoField :: "(TrackInfo \<Rightarrow> string option) \<Rightarrow> Track \<Rightarrow> string option" where
  "infoField f t = (case info t of None \<Rightarrow> None | Some i \<Rightarrow> f i)"

definition trackMatches :: "Track \<Rightarrow> Track \<Rightarrow> bool" where
  "trackMatches t v =
     (present (encoded t) \<and> encoded t = encoded v \<or>
      present (infoField trackIdentifier t) \<and> infoField trackIdentifier t = infoField trackIdentifier v \<or>
      present (infoField uri t) \<and> infoField uri t = infoField uri v \<or>
      present (infoField title t) \<and> infoField title t = infoField title v \<or>
      present (infoField isrc t) \<and> infoField isrc t = infoField isrc v \<or>
      present (infoField artworkUrl t) \<and> infoField artworkUrl t = infoField artworkUrl v)"

section \<open>QueueSaver and Queue\<close>

text \<open>\<^verbatim>\<open>QueueSaver.constructor\<close>: \<^verbatim>\<open>options?.maxPreviousTracks || 25\<close>.\<close>

definition QueueSaver_constructor :: "ManagerQueueOptions option \<Rightarrow> QueueSaver" where
  "QueueSaver_constructor options =
     \<lparr>saverMaxPreviousTracks =
        (case options of None \<Rightarrow> 25
         | Some opts \<Rightarrow>
             (case optMaxPreviousTracks opts of None \<Rightarrow> 25
              | Some n \<Rightarrow> (if n = 0 then 25 else n)))\<rparr>"

text \<open>
  \<^verbatim>\<open>Queue.constructor(guildId, data = {}, QueueSaver?, queueOptions?)\<close>. Reading
  \<^verbatim>\<open>queueOptions.queueChangesWatcher\<close> of a missing \<^verbatim>\<open>queueOptions\<close> throws.
\<close>

definition Queue_constructor ::
  "string \<Rightarrow> PartialStoredQueue option \<Rightarrow> QueueSaver option \<Rightarrow> ManagerQueueOptions option
     \<Rightarrow> error + Queue" where
  "Queue_constructor gid data saver queueOptions =
     (case queueOptions of
        None \<Rightarrow> Inl TypeError
      | Some opts \<Rightarrow>
          Inr \<lparr>qcurrent =
                 (case data of None \<Rightarrow> None
                  | Some d \<Rightarrow>
                      (case pCurrent d of None \<Rightarrow> None
                       | Some t \<Rightarrow> (if isTrack (TrackV t) then Some t else None))),
               maxPreviousTracks =
                 (case saver of None \<Rightarrow> 25 | Some s \<Rightarrow> saverMaxPreviousTracks s),
               guildId = gid,
               queueSaver = saver,
               queueChanges = queueChangesWatcher opts\<rparr>)"

text \<open>\<^verbatim>\<open>Queue._load\<close>. Without a \<^verbatim>\<open>QueueSaver\<close> the call \<^verbatim>\<open>this.QueueSaver.get\<close> throws.\<close>

definition load :: "Queue \<Rightarrow> world \<Rightarrow> error + StoredQueue" where
  "load q w =
     (case queueSaver q of
        None \<Rightarrow> Inl TypeError
      | Some s \<Rightarrow>
          Inr \<lparr>current = qcurrent q,
               previous =
                 (case store w (guildId q) of None \<Rightarrow> []
                  | Some d \<Rightarrow> (case pPrevious d of None \<Rightarrow> [] | Some p \<Rightarrow> p)),
               tracks =
                 (case store w (guildId q) of None \<Rightarrow> []
                  | Some d \<Rightarrow> (case pTracks d of None \<Rightarrow> [] | Some p \<Rightarrow> p))\<rparr>)"

text \<open>\<^verbatim>\<open>QueueSaver.set\<close> on the default store: the document replaces the guild's entry.\<close>

definition saverSet :: "string \<Rightarrow> StoredQueue \<Rightarrow> world \<Rightarrow> world" where
  "saverSet gid stored w =
     w\<lparr>store := (store w)(gid \<mapsto>
            \<lparr>pCurrent = current stored, pPrevious = Some (previous stored),
             pTracks = Some (tracks stored)\<rparr>),
       setCalls := Suc (setCalls w)\<rparr>"

text \<open>\<^verbatim>\<open>Queue._save\<close>: truncate \<^verbatim>\<open>previous\<close> when it is longer than the cap, then set.\<close>

definition capPrevious :: "Queue \<Rightarrow> StoredQueue \<Rightarrow> StoredQueue" where
  "capPrevious q stored =
     (if int (length (previous stored)) > maxPreviousTracks q
      then stored\<lparr>previous :=
             snd (jsSplice (maxPreviousTracks q) (int (length (previous stored))) [] (previous stored))\<rparr>
      else stored)"

definition save :: "Queue \<Rightarrow> StoredQueue \<Rightarrow> world \<Rightarrow> error + world" where
  "save q stored w =
     (case queueSaver q of
        None \<Rightarrow> Inl TypeError
      | Some s \<Rightarrow> Inr (saverSet (guildId q) (capPrevious q stored) w))"

text \<open>
  \<^verbatim>\<open>Queue._snapshot\<close>: a new object with a clone of \<^verbatim>\<open>current\<close> and copies of both lists.
  Values have no identity here, so the copy is the same value.
\<close>

definition snapshot :: "StoredQueue \<Rightarrow> StoredQueue" where
  "snapshot stored =
     \<lparr>current = (case current stored of None \<Rightarrow> None | Some c \<Rightarrow> Some c),
      previous = previous stored,
      tracks = tracks stored\<rparr>"

text \<open>
  \<^verbatim>\<open>typeof this.queueChanges?.h === "function"\<close> is \<open>handler h q \<noteq> None\<close>. \<open>invoke\<close>
  calls a callback and records the call; \<open>notifyCaught\<close> is the guarded call inside
  \<^verbatim>\<open>try { ... } catch { }\<close>, where an exception of the callback is dropped.
\<close>

definition handler ::
  "(QueueChangesWatcher \<Rightarrow> (event \<Rightarrow> cbResult) option) \<Rightarrow> Queue \<Rightarrow> (event \<Rightarrow> cbResult) option" where
  "handler h q = (case queueChanges q of None \<Rightarrow> None | Some wt \<Rightarrow> h wt)"

definition invoke :: "(event \<Rightarrow> cbResult) \<Rightarrow> event \<Rightarrow> world \<Rightarrow> cbResult \<times> world" where
  "invoke f ev w = (f ev, w\<lparr>notified := notified w @ [ev]\<rparr>)"

definition notifyCaught :: "(event \<Rightarrow> cbResult) option \<Rightarrow> event \<Rightarrow> world \<Rightarrow> world" where
  "notifyCaught h ev w = (case h of None \<Rightarrow> w | Some f \<Rightarrow> snd (invoke f ev w))"

text \<open>The common tail of the mutations: \<^verbatim>\<open>await this._save(stored); return r\<close>.\<close>

definition saveAndReturn :: "Queue \<Rightarrow> StoredQueue \<Rightarrow> world \<Rightarrow> 'r \<Rightarrow> (error + 'r) \<times> world" where
  "saveAndReturn q stored w r =
     (case save q stored w of Inl e \<Rightarrow> (Inl e, w) | Inr w' \<Rightarrow> (Inr r, w'))"

text \<open>\<^verbatim>\<open>typeof this.queueChanges?.h === "function"\<close> as a truth value.\<close>

definition registered ::
  "(QueueChangesWatcher \<Rightarrow> (event \<Rightarrow> cbResult) option) \<Rightarrow> Queue \<Rightarrow> bool" where
  "registered h q = (case handler h q of None \<Rightarrow> False | Some f \<Rightarrow> True)"

section \<open>Reads and the bounds-checked primitives\<close>

definition getTracks :: "Queue \<Rightarrow> world \<Rightarrow> error + Track list" where
  "getTracks q w = (case load q w of Inl e \<Rightarrow> Inl e | Inr stored \<Rightarrow> Inr (tracks stored))"

definition getPrevious :: "Queue \<Rightarrow> world \<Rightarrow> error + Track list" where
  "getPrevious q w = (case load q w of Inl e \<Rightarrow> Inl e | Inr stored \<Rightarrow> Inr (previous stored))"

text \<open>\<^verbatim>\<open>Queue.addToPrevious\<close>: \<^verbatim>\<open>unshift\<close>, then save.\<close>

definition addToPrevious :: "Track \<Rightarrow> Queue \<Rightarrow> world \<Rightarrow> (error + unit) \<times> world" where
  "addToPrevious track q w =
     (case load q w of
        Inl e \<Rightarrow> (Inl e, w)
      | Inr stored \<Rightarrow> saveAndReturn q (stored\<lparr>previous := track # previous stored\<rparr>) w ())"

text \<open>
  Comparisons of a number with an integer (\<^verbatim>\<open>x < n\<close>, \<^verbatim>\<open>x >= n\<close>): both are false of NaN.
  \<open>toInteger\<close> is the conversion the native \<^verbatim>\<open>splice\<close> applies to its arguments
  (ToIntegerOrInfinity), which takes NaN to 0.
\<close>

definition numLt :: "jsnumber \<Rightarrow> int \<Rightarrow> bool" where
  "numLt x n = (case x of Num m \<Rightarrow> m < n | NaN \<Rightarrow> False)"

definition numGe :: "jsnumber \<Rightarrow> int \<Rightarrow> bool" where
  "numGe x n = (case x of Num m \<Rightarrow> m \<ge> n | NaN \<Rightarrow> False)"

definition toInteger :: "jsnumber \<Rightarrow> int" where
  "toInteger x = (case x of Num m \<Rightarrow> m | NaN \<Rightarrow> 0)"

text \<open>
  \<^verbatim>\<open>Queue.moveTrack(from, to)\<close>. \<^verbatim>\<open>const [moved] = tracks.splice(from, 1)\<close> takes the
  first removed element, and \<^verbatim>\<open>if (moved)\<close> reinserts it. A NaN \<^verbatim>\<open>from\<close> passes
  \<^verbatim>\<open>from < 0 || from >= length\<close> and is spliced as index 0.
\<close>

definition moveTrack :: "jsnumber \<Rightarrow> jsnumber \<Rightarrow> Queue \<Rightarrow> world \<Rightarrow> (error + unit) \<times> world" where
  "moveTrack frm to q w =
     (case load q w of
        Inl e \<Rightarrow> (Inl e, w)
      | Inr stored \<Rightarrow>
          if numLt frm 0 \<or> numGe frm (int (length (tracks stored))) then (Inr (), w)
          else
            (case jsSplice (toInteger frm) 1 [] (tracks stored) of
               (removed, rest) \<Rightarrow>
                 saveAndReturn q
                   (stored\<lparr>tracks :=
                      (case removed of [] \<Rightarrow> rest
                       | moved # _ \<Rightarrow> snd (jsSplice (toInteger to) 0 [moved] rest))\<rparr>) w ()))"

text \<open>
  \<^verbatim>\<open>a[index] = v\<close> behind the guard of \<^verbatim>\<open>replaceTrack\<close>: an integer inside the array
  names an element; NaN names the property \<^verbatim>\<open>"NaN"\<close> of the array object, and the
  elements stay as they are.
\<close>

definition assignAt :: "jsnumber \<Rightarrow> 'a \<Rightarrow> 'a list \<Rightarrow> 'a list" where
  "assignAt index v xs = (case index of Num m \<Rightarrow> xs[nat m := v] | NaN \<Rightarrow> xs)"

text \<open>
  \<^verbatim>\<open>Queue.replaceTrack(index, track)\<close>. A NaN \<^verbatim>\<open>index\<close> passes the guard as well.
  \<^verbatim>\<open>Queue.swapTracks\<close> has the same guard; with one NaN index it writes \<^verbatim>\<open>undefined\<close>
  into the list, a value the lists here do not hold, and it is left out.
\<close>

definition replaceTrack :: "jsnumber \<Rightarrow> Track \<Rightarrow> Queue \<Rightarrow> world \<Rightarrow> (error + bool) \<times> world" where
  "replaceTrack index track q w =
     (case load q w of
        Inl e \<Rightarrow> (Inl e, w)
      | Inr stored \<Rightarrow>
          if numLt index 0 \<or> numGe index (int (length (tracks stored))) then (Inr False, w)
          else saveAndReturn q (stored\<lparr>tracks := assignAt index track (tracks stored)\<rparr>) w True)"

section \<open>shuffle\<close>

text \<open>
  The loop of \<^verbatim>\<open>shuffle\<close> for three tracks and more:
  \<^verbatim>\<open>for (let i = length - 1; i > 0; i--) { j = Math.floor(Math.random() * (i + 1)); swap i, j }\<close>.
  \<open>rnd k\<close> is the value \<^verbatim>\<open>Math.floor(Math.random() * (i + 1))\<close> takes in the \<open>k\<close>-th
  iteration, counted from 0; the doubles behind it are not modelled. With
  \<^verbatim>\<open>Math.random()\<close> a double in \<open>[0, 1)\<close> the value is an integer from 0 to \<open>i\<close>, which
  the statements about the loop take as their hypothesis. \<open>shuffleLoop rnd i k\<close> runs the
  iterations from \<open>i\<close> down to 1, the first of them drawing \<open>rnd k\<close>.
\<close>

fun shuffleLoop :: "(nat \<Rightarrow> nat) \<Rightarrow> nat \<Rightarrow> nat \<Rightarrow> 'a list \<Rightarrow> 'a list" where
  "shuffleLoop rnd 0 k xs = xs"
| "shuffleLoop rnd (Suc n) k xs = shuffleLoop rnd n (Suc k) (swapAt (Suc n) (rnd k) xs)"

text \<open>What \<^verbatim>\<open>shuffle\<close> does to a list of two tracks or more.\<close>

definition shuffleTracks :: "(nat \<Rightarrow> nat) \<Rightarrow> 'a list \<Rightarrow> 'a list" where
  "shuffleTracks rnd ts =
     (if length ts = 2 then swapAt 0 1 ts else shuffleLoop rnd (length ts - 1) 0 ts)"

text \<open>
  \<^verbatim>\<open>Queue.shuffle\<close>. The call of \<^verbatim>\<open>shuffled\<close> stands outside any \<^verbatim>\<open>try\<close>: when the
  callback throws, the exception leaves \<^verbatim>\<open>shuffle\<close> before the save.
\<close>

definition shuffle :: "(nat \<Rightarrow> nat) \<Rightarrow> Queue \<Rightarrow> world \<Rightarrow> (error + nat) \<times> world" where
  "shuffle rnd q w =
     (case load q w of
        Inl e \<Rightarrow> (Inl e, w)
      | Inr stored \<Rightarrow>
          (let oldStored = (if registered shuffled q then Some (snapshot stored) else None) in
           if length (tracks stored) \<le> 1 then (Inr (length (tracks stored)), w)
           else
             (let stored' = stored\<lparr>tracks := shuffleTracks rnd (tracks stored)\<rparr> in
              case handler shuffled q of
                None \<Rightarrow> saveAndReturn q stored' w (length (tracks stored'))
              | Some f \<Rightarrow>
                  (case invoke f (Shuffled (guildId q) oldStored (snapshot stored')) w of
                     (Throws, w1) \<Rightarrow> (Inl WatcherError, w1)
                   | (Returns, w1) \<Rightarrow> saveAndReturn q stored' w1 (length (tracks stored'))))))"

section \<open>add and splice\<close>

text \<open>\<^verbatim>\<open>Queue.add(TrackOrTracks, index?)\<close>; a missing \<^verbatim>\<open>index\<close> is \<open>None\<close>.\<close>

definition add :: "jsval \<Rightarrow> int option \<Rightarrow> Queue \<Rightarrow> world \<Rightarrow> (error + nat) \<times> world" where
  "add TrackOrTracks index q w =
     (let validTracks = validTracksOf TrackOrTracks in
      case load q w of
        Inl e \<Rightarrow> (Inl e, w)
      | Inr stored \<Rightarrow>
          (case (case index of None \<Rightarrow> None
                 | Some i \<Rightarrow> (if 0 \<le> i \<and> i < int (length (tracks stored)) then Some i else None)) of
             Some i \<Rightarrow>
               (let oldStored = (if registered tracksAdd q \<or> registered tracksRemoved q
                                 then Some (snapshot stored) else None);
                    stored' = stored\<lparr>tracks := snd (jsSplice i 0 validTracks (tracks stored))\<rparr>;
                    w1 = notifyCaught (handler tracksAdd q)
                           (TracksAdd (guildId q) validTracks i oldStored (snapshot stored')) w
                in saveAndReturn q stored' w1 (length (tracks stored')))
           | None \<Rightarrow>
               (let oldStored = (if registered tracksAdd q then Some (snapshot stored) else None);
                    stored' = stored\<lparr>tracks := tracks stored @ validTracks\<rparr>;
                    w1 = notifyCaught (handler tracksAdd q)
                           (TracksAdd (guildId q) validTracks (int (length (tracks stored')))
                              oldStored (snapshot stored')) w
                in saveAndReturn q stored' w1 (length (tracks stored')))))"

text \<open>
  Truthiness of an argument (\<^verbatim>\<open>if (TrackOrTracks)\<close>), and what \<^verbatim>\<open>splice\<close> returns:
  \<^verbatim>\<open>null\<close>, the count \<^verbatim>\<open>add\<close> returned, the one removed track, or the removed list.
\<close>

definition truthy :: "jsval \<Rightarrow> bool" where
  "truthy v =
     (case v of TrackV t \<Rightarrow> True | NumV n \<Rightarrow> (if n = 0 then False else True)
      | ArrV xs \<Rightarrow> True | Undefined \<Rightarrow> False)"

datatype spliceResult = Null | Count nat | One Track | Many "Track list"

text \<open>
  \<^verbatim>\<open>Queue.splice(index, amount, TrackOrTracks?)\<close>. \<^verbatim>\<open>tracksAdd\<close> is called before the
  native splice runs, with \<^verbatim>\<open>this._snapshot(stored)\<close> taken at that point;
  \<^verbatim>\<open>tracksRemoved\<close> is called after it. Without \<^verbatim>\<open>TrackOrTracks\<close> the list of
  replacements is empty, which is the native splice of two arguments.
\<close>

definition splice :: "int \<Rightarrow> int \<Rightarrow> jsval \<Rightarrow> Queue \<Rightarrow> world \<Rightarrow> (error + spliceResult) \<times> world" where
  "splice index amount TrackOrTracks q w =
     (case load q w of
        Inl e \<Rightarrow> (Inl e, w)
      | Inr stored \<Rightarrow>
          (let oldStored = (if registered tracksAdd q \<or> registered tracksRemoved q
                            then Some (snapshot stored) else None) in
           if tracks stored = [] then
             (if truthy TrackOrTracks then
                (case add TrackOrTracks None q w of
                   (Inl e, w') \<Rightarrow> (Inl e, w')
                 | (Inr n, w') \<Rightarrow> (Inr (Count n), w'))
              else (Inr Null, w))
           else
             (let validTracks = (if truthy TrackOrTracks then validTracksOf TrackOrTracks else []);
                  w1 = (if truthy TrackOrTracks
                        then notifyCaught (handler tracksAdd q)
                               (TracksAdd (guildId q) validTracks index oldStored (snapshot stored)) w
                        else w)
              in case jsSplice index amount validTracks (tracks stored) of
                   (spliced, ts) \<Rightarrow>
                     (let stored' = stored\<lparr>tracks := ts\<rparr>;
                          w2 = notifyCaught (handler tracksRemoved q)
                                 (TracksRemoved (guildId q) spliced (Pos index) oldStored
                                    (snapshot stored')) w1
                      in saveAndReturn q stored' w2
                           (case spliced of [x] \<Rightarrow> One x | _ \<Rightarrow> Many spliced)))))"

section \<open>remove\<close>

text \<open>\<^verbatim>\<open>removeQueryTrack.every(v => typeof v === "number")\<close>, and the array read as numbers.\<close>

definition isNumber :: "jsval \<Rightarrow> bool" where
  "isNumber v = (case v of NumV n \<Rightarrow> True | _ \<Rightarrow> False)"

fun asNumbers :: "jsval list \<Rightarrow> int list" where
  "asNumbers [] = []"
| "asNumbers (NumV n # vs) = n # asNumbers vs"
| "asNumbers (v # vs) = asNumbers vs"

text \<open>
  The removal loop of both array branches:
  \<^verbatim>\<open>for (const i of ...) if (stored.tracks[i]) removed.push(...stored.tracks.splice(i, 1))\<close>.
  Each index is read against the list as the earlier removals left it.
\<close>

fun removeEach :: "int list \<Rightarrow> Track list \<Rightarrow> Track list \<Rightarrow> Track list \<times> Track list" where
  "removeEach [] ts removed = (removed, ts)"
| "removeEach (i # ks) ts removed =
     (if 0 \<le> i \<and> i < int (length ts)
      then removeEach ks (snd (jsSplice i 1 [] ts)) (removed @ fst (jsSplice i 1 [] ts))
      else removeEach ks ts removed)"

text \<open>
  The predicate handed to \<^verbatim>\<open>removeQueryTrack.find\<close> in the mixed branch, for the track
  \<open>v\<close> at position \<open>i\<close>: a number hits its own position, a track hits by the match rule,
  an array (an object with none of the fields) and a missing value hit nothing.
\<close>

definition queryHits :: "jsval \<Rightarrow> Track \<Rightarrow> nat \<Rightarrow> bool" where
  "queryHits t v i =
     (case t of NumV n \<Rightarrow> n = int i | TrackV tq \<Rightarrow> trackMatches tq v
      | ArrV xs \<Rightarrow> False | Undefined \<Rightarrow> False)"

text \<open>
  \<^verbatim>\<open>stored.tracks.map((v, i) => ({ v, i })).filter(({ v, i }) => removeQueryTrack.find(...))\<close>:
  \<^verbatim>\<open>filter\<close> keeps a position when the element \<^verbatim>\<open>find\<close> returns is truthy.
\<close>

definition tracksToRemove :: "jsval list \<Rightarrow> Track list \<Rightarrow> (Track \<times> nat) list" where
  "tracksToRemove qs ts =
     filter (\<lambda>(v, i). case find (\<lambda>t. queryHits t v i) qs of None \<Rightarrow> False | Some t \<Rightarrow> truthy t)
       (zip ts [0..<length ts])"

text \<open>
  \<^verbatim>\<open>Queue.remove(removeQueryTrack)\<close>: \<open>None\<close> is \<^verbatim>\<open>null\<close>, \<open>Some removed\<close> is
  \<^verbatim>\<open>{ removed }\<close>. A missing query ends in the last branch: the callback of
  \<^verbatim>\<open>findIndex\<close> reads \<^verbatim>\<open>removeQueryTrack.encoded\<close> and throws at the first track, and
  on an empty list it never runs and \<^verbatim>\<open>remove\<close> returns \<^verbatim>\<open>null\<close>.
\<close>

definition remove :: "jsval \<Rightarrow> Queue \<Rightarrow> world \<Rightarrow> (error + Track list option) \<times> world" where
  "remove removeQueryTrack q w =
     (case load q w of
        Inl e \<Rightarrow> (Inl e, w)
      | Inr stored \<Rightarrow>
          (let oldStored = (if registered tracksRemoved q then Some (snapshot stored) else None) in
           case removeQueryTrack of
             NumV n \<Rightarrow>
               if 0 \<le> n \<and> n < int (length (tracks stored)) then
                 (case jsSplice n 1 [] (tracks stored) of
                    (removed, ts) \<Rightarrow>
                      (let stored' = stored\<lparr>tracks := ts\<rparr>;
                           w1 = notifyCaught (handler tracksRemoved q)
                                  (TracksRemoved (guildId q) removed (Pos n) oldStored
                                     (snapshot stored')) w
                       in saveAndReturn q stored' w1 (Some removed)))
               else (Inr None, w)
           | ArrV qs \<Rightarrow>
               if list_all isNumber qs then
                 (case removeEach (asNumbers qs) (tracks stored) [] of
                    (removed, ts) \<Rightarrow>
                      if removed = [] then (Inr None, w)
                      else
                        (let stored' = stored\<lparr>tracks := ts\<rparr>;
                             w1 = notifyCaught (handler tracksRemoved q)
                                    (TracksRemoved (guildId q) removed (PosList (asNumbers qs))
                                       oldStored (snapshot stored')) w
                         in saveAndReturn q stored' w1 (Some removed)))
               else
                 (let toRemove = tracksToRemove qs (tracks stored) in
                  if toRemove = [] then (Inr None, w)
                  else
                    (case removeEach (map (\<lambda>(v, i). int i) toRemove) (tracks stored) [] of
                       (removed, ts) \<Rightarrow>
                         (let stored' = stored\<lparr>tracks := ts\<rparr>;
                              w1 = notifyCaught (handler tracksRemoved q)
                                     (TracksRemoved (guildId q) removed
                                        (PosList (map (\<lambda>(v, i). int i) toRemove))
                                        oldStored (snapshot stored')) w
                          in saveAndReturn q stored' w1 (Some removed))))
           | TrackV t \<Rightarrow>
               (let toRemove = findIndex (trackMatches t) (tracks stored) in
                if toRemove < 0 then (Inr None, w)
                else
                  (case jsSplice toRemove 1 [] (tracks stored) of
                     (removed, ts) \<Rightarrow>
                       (let stored' = stored\<lparr>tracks := ts\<rparr>;
                            w1 = notifyCaught (handler tracksRemoved q)
                                   (TracksRemoved (guildId q) removed (Pos toRemove) oldStored
                                      (snapshot stored')) w
                        in saveAndReturn q stored' w1 (Some removed))))
           | Undefined \<Rightarrow>
               if tracks stored = [] then (Inr None, w) else (Inl TypeError, w)))"

section \<open>The match rule as a table, and flattening level by level\<close>

text \<open>
  The six fields of the match rule, in the order in which the disjunction of
  \<^verbatim>\<open>remove\<close> tests them.
\<close>

definition matchFields :: "(Track \<Rightarrow> string option) list" where
  "matchFields =
     [encoded, infoField trackIdentifier, infoField uri, infoField title, infoField isrc,
      infoField artworkUrl]"

text \<open>
  One level of flattening in the words of the spec: every element that is an array is
  replaced by its elements, every other element stays.
\<close>

definition unwrapOnce :: "jsval list \<Rightarrow> jsval list" where
  "unwrapOnce xs = concat (map (\<lambda>x. case x of ArrV ys \<Rightarrow> ys | _ \<Rightarrow> [x]) xs)"

section \<open>Example data\<close>

text \<open>
  Three resolved tracks of 200 seconds, told apart by \<^verbatim>\<open>encoded\<close> and
  \<^verbatim>\<open>info.identifier\<close>; a query that shares the identifier of \<open>trackA\<close> and differs
  from it in \<^verbatim>\<open>encoded\<close>; an unresolved track of 3 seconds and a resolved one of 5.
\<close>

definition exInfo :: "string \<Rightarrow> int \<Rightarrow> TrackInfo" where
  "exInfo i d =
     \<lparr>trackIdentifier = Some i, uri = None, title = None, isrc = None, artworkUrl = None,
      duration = Some (Num d)\<rparr>"

definition trackA :: Track where
  "trackA = \<lparr>kind = Resolved, encoded = Some ''A'', info = Some (exInfo ''a'' 200000)\<rparr>"

definition trackB :: Track where
  "trackB = \<lparr>kind = Resolved, encoded = Some ''B'', info = Some (exInfo ''b'' 200000)\<rparr>"

definition trackC :: Track where
  "trackC = \<lparr>kind = Resolved, encoded = Some ''C'', info = Some (exInfo ''c'' 200000)\<rparr>"

definition queryZ :: Track where
  "queryZ = \<lparr>kind = Resolved, encoded = Some ''Z'', info = Some (exInfo ''a'' 200000)\<rparr>"

definition unresolvedU :: Track where
  "unresolvedU = \<lparr>kind = Unresolved, encoded = None, info = Some (exInfo ''u'' 3000)\<rparr>"

definition shortS :: Track where
  "shortS = \<lparr>kind = Resolved, encoded = Some ''S'', info = Some (exInfo ''s'' 5000)\<rparr>"

text \<open>
  A world whose store holds the given tracks for the guild \<open>''g''\<close>, and a queue of that
  guild with a saver, the default cap and the given watcher.
\<close>

definition exWorld :: "Track list \<Rightarrow> world" where
  "exWorld ts =
     \<lparr>store = [''g'' \<mapsto> \<lparr>pCurrent = None, pPrevious = None, pTracks = Some ts\<rparr>],
      setCalls = 0, notified = []\<rparr>"

definition exQueue :: "QueueChangesWatcher option \<Rightarrow> Queue" where
  "exQueue wt =
     \<lparr>qcurrent = None, maxPreviousTracks = 25, guildId = ''g'',
      queueSaver = Some \<lparr>saverMaxPreviousTracks = 25\<rparr>, queueChanges = wt\<rparr>"

text \<open>A watcher whose callbacks all throw, one whose callbacks all return, and options that ask for a cap of 0.\<close>

definition throwingWatcher :: QueueChangesWatcher where
  "throwingWatcher =
     \<lparr>tracksAdd = Some (\<lambda>ev. Throws), tracksRemoved = Some (\<lambda>ev. Throws),
      shuffled = Some (\<lambda>ev. Throws)\<rparr>"

definition quietWatcher :: QueueChangesWatcher where
  "quietWatcher =
     \<lparr>tracksAdd = Some (\<lambda>ev. Returns), tracksRemoved = Some (\<lambda>ev. Returns),
      shuffled = Some (\<lambda>ev. Returns)\<rparr>"

definition zeroCapOptions :: ManagerQueueOptions where
  "zeroCapOptions = \<lparr>optMaxPreviousTracks = Some 0, queueChangesWatcher = None\<rparr>"

section \<open>Auxiliary facts\<close>

lemmas ex_defs = exInfo_def trackA_def trackB_def trackC_def queryZ_def unresolvedU_def
  shortS_def exWorld_def exQueue_def throwingWatcher_def quietWatcher_def zeroCapOptions_def

lemmas op_defs = load_def save_def saverSet_def capPrevious_def snapshot_def handler_def
  registered_def invoke_def notifyCaught_def saveAndReturn_def getTracks_def getPrevious_def
  jsSplice_def spliceStart_def Let_def

lemmas valid_defs = validTracksOf_def toArray_def isTrack_def isUnresolvedTrack_def
  isValid_def durationOf_def jsNot_def jsIsNaN_def jsLess_def numeral_2_eq_2

lemma load_Inr: "load q w = Inr stored \<Longrightarrow> \<exists>s. queueSaver q = Some s"
  by (auto simp: load_def split: option.splits)

lemma tracks_capPrevious: "tracks (capPrevious q stored) = tracks stored"
  by (simp add: capPrevious_def)

lemma getTracks_Inr:
  "getTracks q w = Inr ts \<Longrightarrow>
     \<exists>stored s. load q w = Inr stored \<and> tracks stored = ts \<and> queueSaver q = Some s"
  by (auto simp: getTracks_def load_def split: option.splits sum.splits)

lemma saveAndReturn_effect:
  "queueSaver q = Some s \<Longrightarrow>
   fst (saveAndReturn q stored w r) = Inr r \<and>
   setCalls (snd (saveAndReturn q stored w r)) = Suc (setCalls w) \<and>
   notified (snd (saveAndReturn q stored w r)) = notified w \<and>
   getTracks q (snd (saveAndReturn q stored w r)) = Inr (tracks stored)"
  by (simp add: saveAndReturn_def save_def saverSet_def getTracks_def load_def tracks_capPrevious)

text \<open>\<^verbatim>\<open>findIndex\<close> and \<^verbatim>\<open>find\<close> agree on the first element that satisfies the predicate.\<close>

lemma findIndex_takeWhile:
  "findIndex p xs = (if list_ex p xs then int (length (takeWhile (\<lambda>x. \<not> p x) xs)) else -1)"
  by (induction xs) (auto simp: Let_def)

lemma find_takeWhile:
  "list_ex p xs \<Longrightarrow>
     find p xs = Some (xs ! length (takeWhile (\<lambda>x. \<not> p x) xs)) \<and>
     length (takeWhile (\<lambda>x. \<not> p x) xs) < length xs"
  by (induction xs) auto

lemma find_None_list_ex: "find p xs = None \<longleftrightarrow> \<not> list_ex p xs"
  by (induction xs) auto

text \<open>\<^verbatim>\<open>splice(i, 1)\<close> inside the array takes out exactly the element at \<open>i\<close>.\<close>

lemma jsSplice_one:
  "i < length xs \<Longrightarrow> jsSplice (int i) 1 [] xs = ([xs ! i], take i xs @ drop (Suc i) xs)"
  by (simp add: jsSplice_def spliceStart_def Let_def take_Suc_conv_app_nth hd_drop_conv_nth min_def
       Cons_nth_drop_Suc [symmetric])

text \<open>
  What \<^verbatim>\<open>_save\<close> does guarantee: with a cap that is not negative, the stored
  \<^verbatim>\<open>previous\<close> is no longer than the cap the \<^verbatim>\<open>Queue\<close> object holds.
\<close>

lemma capPrevious_take:
  "0 \<le> maxPreviousTracks q \<Longrightarrow>
     previous (capPrevious q stored) = take (nat (maxPreviousTracks q)) (previous stored)"
  by (auto simp: capPrevious_def jsSplice_def spliceStart_def Let_def min_def)

lemma capPrevious_bound:
  "0 \<le> maxPreviousTracks q \<Longrightarrow>
     int (length (previous (capPrevious q stored))) \<le> maxPreviousTracks q"
  by (simp add: capPrevious_take)

lemma save_bounds_previous:
  assumes "0 \<le> maxPreviousTracks q" and "save q stored w = Inr w'"
  shows "\<exists>p. getPrevious q w' = Inr p \<and> int (length p) \<le> maxPreviousTracks q \<and>
             p = take (nat (maxPreviousTracks q)) (previous stored)"
proof -
  from assms(2) obtain s where S: "queueSaver q = Some s"
    by (auto simp: save_def split: option.splits)
  with assms(2) have W: "w' = saverSet (guildId q) (capPrevious q stored) w"
    by (simp add: save_def)
  have "getPrevious q w' = Inr (previous (capPrevious q stored))"
    using S W by (simp add: getPrevious_def load_def saverSet_def)
  with capPrevious_take [OF assms(1)] capPrevious_bound [OF assms(1)] show ?thesis by simp
qed

text \<open>Flattening: a list of tracks is flat already, and one level of brackets costs one level of depth.\<close>

lemma concat_singletons: "concat (map (\<lambda>x. [f x]) xs) = map f xs"
  by (induction xs) auto

lemma jsFlat_tracks: "jsFlat d (map TrackV ts) = map TrackV ts"
  by (induction d) (simp_all add: comp_def concat_singletons)

lemma jsFlat_nest: "jsFlat (Suc d) [ArrV xs] = jsFlat d xs"
  by simp

lemma flat2_nest1: "jsFlat 2 [ArrV (map TrackV ts)] = map TrackV ts"
  by (simp only: numeral_2_eq_2 jsFlat_nest jsFlat_tracks)

lemma flat2_nest2: "jsFlat 2 [ArrV [ArrV xs]] = xs"
  by (simp add: numeral_2_eq_2)

lemma flat2_empty: "jsFlat 2 [] = []"
  by (simp add: numeral_2_eq_2)

lemma validTracksOf_flat2:
  "validTracksOf (ArrV xs) =
     filter isValid (asTracks (filter (\<lambda>v. isTrack v \<or> isUnresolvedTrack v) (jsFlat 2 xs)))"
  by (simp add: validTracksOf_def toArray_def)

lemma capability_drops_arrays:
  "filter (\<lambda>v. isTrack v \<or> isUnresolvedTrack v) [ArrV xs] = []"
  by (simp add: isTrack_def isUnresolvedTrack_def)

text \<open>\<^verbatim>\<open>add\<close> reads its first argument through \<open>validTracksOf\<close> only.\<close>

lemma add_cong_valid:
  "validTracksOf a = validTracksOf b \<Longrightarrow> add a index q w = add b index q w"
  by (simp add: add_def)

text \<open>The two filters of \<^verbatim>\<open>add\<close>.\<close>

lemma valid_resolved_duration:
  "t \<in> set (filter isValid ts) \<Longrightarrow> isTrack (TrackV t) \<Longrightarrow>
     \<exists>d. durationOf t = Some (Num d) \<and> 10000 \<le> d"
  by (auto simp: isValid_def jsNot_def jsIsNaN_def jsLess_def
      split: option.splits jsnumber.splits if_splits)

lemma unresolved_kept:
  "filter (\<lambda>t. isUnresolvedTrack (TrackV t))
     (filter isValid (asTracks (filter (\<lambda>v. isTrack v \<or> isUnresolvedTrack v) xs))) =
   filter (\<lambda>t. isUnresolvedTrack (TrackV t)) (asTracks xs)"
  by (induction xs rule: asTracks.induct) (auto simp: isValid_def isTrack_def isUnresolvedTrack_def)

text \<open>\<^verbatim>\<open>splice(i, 0, ...items)\<close> inside the array inserts in front of position \<open>i\<close>.\<close>

lemma jsSplice_insert:
  "0 \<le> i \<Longrightarrow> i < int (length xs) \<Longrightarrow>
     snd (jsSplice i 0 items xs) = take (nat i) xs @ items @ drop (nat i) xs"
proof -
  assume A: "0 \<le> i" "i < int (length xs)"
  then have "nat i \<le> length xs" by linarith
  with A show ?thesis by (simp add: jsSplice_def spliceStart_def Let_def min_def)
qed

text \<open>
  The loop keeps the multiset when every drawn index stays at or below the loop index:
  the \<open>j\<close>-th iteration of \<open>shuffleLoop rnd n k\<close> has the loop index \<open>n - j\<close> and draws
  \<open>rnd (k + j)\<close>.
\<close>

lemma swapAt_perm:
  "i < length xs \<Longrightarrow> j < length xs \<Longrightarrow>
     mset (swapAt i j xs) = mset xs \<and> length (swapAt i j xs) = length xs"
  by (simp add: swapAt_def mset_swap)

lemma shuffleLoop_perm:
  "\<forall>j<n. rnd (k + j) \<le> n - j \<Longrightarrow> n < length xs \<Longrightarrow>
     mset (shuffleLoop rnd n k xs) = mset xs"
proof (induction n arbitrary: k xs)
  case 0
  show ?case by simp
next
  case (Suc n)
  from Suc.prems(1) have "rnd (k + 0) \<le> Suc n - 0" by blast
  with Suc.prems(2) have J: "rnd k < length xs" by simp
  from swapAt_perm [OF Suc.prems(2) J]
  have P: "mset (swapAt (Suc n) (rnd k) xs) = mset xs"
    and Len: "length (swapAt (Suc n) (rnd k) xs) = length xs"
    by simp_all
  have later: "\<forall>j<n. rnd (Suc k + j) \<le> n - j"
  proof (intro allI impI)
    fix j assume "j < n"
    then have "Suc j < Suc n" by simp
    with Suc.prems(1) have "rnd (k + Suc j) \<le> Suc n - Suc j" by blast
    then show "rnd (Suc k + j) \<le> n - j" by simp
  qed
  from Suc.prems(2) Len have "n < length (swapAt (Suc n) (rnd k) xs)" by simp
  from Suc.IH [OF later this] P show ?case by simp
qed

lemma shuffleLoop_length: "length (shuffleLoop rnd n k xs) = length xs"
  by (induction n arbitrary: k xs) (simp_all add: swapAt_def)

lemma shuffleTracks_length: "length (shuffleTracks rnd ts) = length ts"
  by (simp add: shuffleTracks_def shuffleLoop_length swapAt_def)

lemma swap_two: "length ts = 2 \<Longrightarrow> swapAt 0 1 ts = [ts ! 1, ts ! 0]"
proof -
  assume "length ts = 2"
  then obtain a b where "ts = [a, b]"
    by (cases ts; cases "tl ts") (auto simp: numeral_2_eq_2)
  then show ?thesis by (simp add: swapAt_def)
qed

text \<open>
  The guarded notifications: with a saver, \<^verbatim>\<open>add\<close>, \<^verbatim>\<open>splice\<close> and \<^verbatim>\<open>remove\<close> return,
  whatever the callbacks of the watcher do.
\<close>

lemma saveAndReturn_Inr:
  "queueSaver q = Some s \<Longrightarrow> fst (saveAndReturn q stored w r) = Inr r"
  by (simp add: saveAndReturn_def save_def)

lemma add_returns:
  assumes S: "queueSaver q = Some s"
  shows "\<exists>n. fst (add x index q w) = Inr n"
proof -
  obtain stored where L: "load q w = Inr stored" using S by (simp add: load_def)
  show ?thesis using L
    by (simp add: add_def Let_def saveAndReturn_Inr [OF S] split: option.splits)
qed

lemma splice_returns:
  assumes S: "queueSaver q = Some s"
  shows "\<exists>r. fst (splice index amount x q w) = Inr r"
proof -
  obtain stored where L: "load q w = Inr stored" using S by (simp add: load_def)
  from add_returns [OF S, of x None w] obtain n where A: "fst (add x None q w) = Inr n" by blast
  then obtain w' where A': "add x None q w = (Inr n, w')" by (cases "add x None q w") simp
  show ?thesis using L A'
    by (simp add: splice_def Let_def saveAndReturn_Inr [OF S] split: prod.splits)
qed

lemma remove_returns:
  assumes S: "queueSaver q = Some s" and X: "x \<noteq> Undefined"
  shows "\<exists>r. fst (remove x q w) = Inr r"
proof -
  obtain stored where L: "load q w = Inr stored" using S by (simp add: load_def)
  show ?thesis using L X
    by (cases x) (simp_all add: remove_def Let_def saveAndReturn_Inr [OF S] split: prod.splits)
qed

text \<open>The first match: \<^verbatim>\<open>splice(findIndex(...), 1)\<close> cuts it out of the list.\<close>

lemma first_match_cut:
  "take (length (takeWhile P xs)) xs @ drop (Suc (length (takeWhile P xs))) xs =
     takeWhile P xs @ tl (dropWhile P xs)"
  by (induction xs) auto

text \<open>\<^verbatim>\<open>flat(2)\<close> is one level of flattening done twice.\<close>

lemma unwrapOnce_append: "unwrapOnce (xs @ ys) = unwrapOnce xs @ unwrapOnce ys"
  by (simp add: unwrapOnce_def)

lemma unwrapOnce_concat: "unwrapOnce (concat xss) = concat (map unwrapOnce xss)"
  by (induction xss) (simp_all add: unwrapOnce_append, simp add: unwrapOnce_def)

lemma jsFlat_one: "jsFlat (Suc 0) xs = unwrapOnce xs"
  by (simp add: unwrapOnce_def cong: jsval.case_cong)

lemma jsFlat_two: "jsFlat 2 xs = unwrapOnce (unwrapOnce xs)"
proof -
  have "unwrapOnce (unwrapOnce xs) =
          concat (map (\<lambda>x. unwrapOnce (case x of ArrV ys \<Rightarrow> ys | _ \<Rightarrow> [x])) xs)"
    by (simp add: unwrapOnce_def [of xs] unwrapOnce_concat comp_def)
  also have "\<dots> = concat (map (\<lambda>x. case x of ArrV ys \<Rightarrow> unwrapOnce ys | _ \<Rightarrow> [x]) xs)"
    by (rule arg_cong [where f = concat], rule map_cong, simp)
      (simp add: unwrapOnce_def split: jsval.splits)
  also have "\<dots> = jsFlat (Suc (Suc 0)) xs"
    unfolding jsFlat.simps(2) [of "Suc 0"] jsFlat_one ..
  finally show ?thesis by (simp add: numeral_2_eq_2)
qed

text \<open>Which values one level of flattening yields, and which tracks a list of values holds.\<close>

lemma set_unwrapOnce:
  "v \<in> set (unwrapOnce xs) \<longleftrightarrow>
     (v \<in> set xs \<and> (\<forall>ys. v \<noteq> ArrV ys)) \<or> (\<exists>ys. ArrV ys \<in> set xs \<and> v \<in> set ys)"
  by (induction xs) (auto simp: unwrapOnce_def split: jsval.splits)

lemma set_asTracks: "t \<in> set (asTracks xs) \<longleftrightarrow> TrackV t \<in> set xs"
  by (induction xs rule: asTracks.induct) auto

lemma capability_of_track: "isTrack (TrackV t) \<or> isUnresolvedTrack (TrackV t)"
  by (cases "kind t") (simp_all add: isTrack_def isUnresolvedTrack_def)

section \<open>The retention cap\<close>

text \<open>
  C1. After a save the length of \<^verbatim>\<open>previous\<close> should never exceed the configured
  \<^verbatim>\<open>maxPreviousTracks\<close>, for every configured value from 0 upwards. The interface
  documents "Set to 0 to not save previous songs". The code does not do that:
  \<^verbatim>\<open>options?.maxPreviousTracks || 25\<close> reads a configured 0 as missing, the saver and the
  queue built from it hold the cap 25, and a track pushed to \<^verbatim>\<open>previous\<close> is stored.
\<close>

theorem maxPreviousTracks_zero_not_enforced:
  "saverMaxPreviousTracks (QueueSaver_constructor (Some zeroCapOptions)) = 25 \<and>
   (case Queue_constructor ''g'' None (Some (QueueSaver_constructor (Some zeroCapOptions)))
           (Some zeroCapOptions) of
      Inl e \<Rightarrow> False
    | Inr q \<Rightarrow>
        maxPreviousTracks q = 25 \<and>
        getPrevious q (snd (addToPrevious trackA q (exWorld []))) = Inr [trackA])"
  by (simp add: QueueSaver_constructor_def Queue_constructor_def addToPrevious_def op_defs ex_defs)

section \<open>Watcher exceptions\<close>

text \<open>
  C2. An exception of a watcher callback should be caught and dropped by every
  notifying mutation, which then saves and returns. \<^verbatim>\<open>add\<close>, \<^verbatim>\<open>splice\<close> and
  \<^verbatim>\<open>remove\<close> wrap the call in \<^verbatim>\<open>try { } catch { }\<close>; \<^verbatim>\<open>shuffle\<close> does not. With a
  \<^verbatim>\<open>shuffled\<close> callback that throws and two tracks in the store, \<^verbatim>\<open>shuffle\<close> swaps its
  copy, calls the callback with the swapped list and ends in the exception of the
  callback; no \<^verbatim>\<open>set\<close> is made. \<^verbatim>\<open>add\<close> on the same queue returns the new length.
\<close>

theorem shuffle_watcher_exception_escapes:
  "fst (shuffle rnd (exQueue (Some throwingWatcher)) (exWorld [trackA, trackB])) = Inl WatcherError \<and>
   setCalls (snd (shuffle rnd (exQueue (Some throwingWatcher)) (exWorld [trackA, trackB]))) = 0 \<and>
   notified (snd (shuffle rnd (exQueue (Some throwingWatcher)) (exWorld [trackA, trackB]))) =
     [Shuffled ''g''
        (Some \<lparr>current = None, previous = [], tracks = [trackA, trackB]\<rparr>)
        \<lparr>current = None, previous = [], tracks = [trackB, trackA]\<rparr>] \<and>
   fst (add (TrackV trackC) None (exQueue (Some throwingWatcher)) (exWorld [trackA, trackB])) = Inr 3"
proof (intro conjI)
  show "fst (shuffle rnd (exQueue (Some throwingWatcher)) (exWorld [trackA, trackB])) =
          Inl WatcherError"
    by (simp add: shuffle_def shuffleTracks_def swapAt_def op_defs ex_defs)
  show "setCalls (snd (shuffle rnd (exQueue (Some throwingWatcher)) (exWorld [trackA, trackB]))) = 0"
    by (simp add: shuffle_def shuffleTracks_def swapAt_def op_defs ex_defs)
  show "notified (snd (shuffle rnd (exQueue (Some throwingWatcher)) (exWorld [trackA, trackB]))) =
     [Shuffled ''g''
        (Some \<lparr>current = None, previous = [], tracks = [trackA, trackB]\<rparr>)
        \<lparr>current = None, previous = [], tracks = [trackB, trackA]\<rparr>]"
    by (simp add: shuffle_def shuffleTracks_def swapAt_def op_defs ex_defs)
  show "fst (add (TrackV trackC) None (exQueue (Some throwingWatcher)) (exWorld [trackA, trackB])) =
          Inr 3"
    by (simp add: add_def valid_defs op_defs ex_defs)
qed

section \<open>The match rule of remove\<close>

text \<open>
  C3, as the spec has it: a later field is consulted only if every earlier field is
  absent on one side, so a field present on both sides and unequal rules a match out.
  That fails: \<open>queryZ\<close> and \<open>trackA\<close> both have \<^verbatim>\<open>encoded\<close>, with different values, and
  \<open>queryZ\<close> still matches \<open>trackA\<close> through \<^verbatim>\<open>info.identifier\<close>; \<^verbatim>\<open>remove\<close> removes it.
\<close>

theorem unequal_field_does_not_stop_matching:
  "present (encoded queryZ) \<and> present (encoded trackA) \<and> encoded queryZ \<noteq> encoded trackA \<and>
   trackMatches queryZ trackA \<and>
   fst (remove (TrackV queryZ) (exQueue None) (exWorld [trackA])) = Inr (Some [trackA])"
  by (simp add: remove_def trackMatches_def present_def infoField_def op_defs ex_defs)

text \<open>
  C3, amended: a candidate matches the query exactly when one of the six fields, taken
  in the order \<^verbatim>\<open>encoded\<close>, \<^verbatim>\<open>info.identifier\<close>, \<^verbatim>\<open>info.uri\<close>, \<^verbatim>\<open>info.title\<close>,
  \<^verbatim>\<open>info.isrc\<close>, \<^verbatim>\<open>info.artworkUrl\<close>, is present (defined and not empty) in the query
  and equal in the candidate; a field that is absent or unequal passes the decision on
  to the next one. \<^verbatim>\<open>remove\<close> with a single track takes the first track of the list
  that matches: it returns it, makes one \<^verbatim>\<open>set\<close>, and the stored list is the old one
  with that track cut out (the tracks before it, then the tracks after it). When no
  track matches it returns \<^verbatim>\<open>null\<close> and leaves the world as it was.
\<close>

theorem remove_track_match_rule:
  "trackMatches t v = list_ex (\<lambda>f. present (f t) \<and> f t = f v) matchFields \<and>
   (load q w = Inr stored \<longrightarrow>
      (case find (trackMatches t) (tracks stored) of
         None \<Rightarrow> remove (TrackV t) q w = (Inr None, w)
       | Some m \<Rightarrow>
           fst (remove (TrackV t) q w) = Inr (Some [m]) \<and>
           setCalls (snd (remove (TrackV t) q w)) = Suc (setCalls w) \<and>
           getTracks q (snd (remove (TrackV t) q w)) =
             Inr (takeWhile (\<lambda>x. \<not> trackMatches t x) (tracks stored) @
                  tl (dropWhile (\<lambda>x. \<not> trackMatches t x) (tracks stored)))))"
proof (intro conjI impI)
  show "trackMatches t v = list_ex (\<lambda>f. present (f t) \<and> f t = f v) matchFields"
    by (simp add: trackMatches_def matchFields_def)
next
  assume L: "load q w = Inr stored"
  then obtain s where S: "queueSaver q = Some s" using load_Inr by blast
  note sr = saveAndReturn_effect [OF S]
  let ?ts = "tracks stored"
  let ?i = "length (takeWhile (\<lambda>x. \<not> trackMatches t x) ?ts)"
  show "case find (trackMatches t) ?ts of
          None \<Rightarrow> remove (TrackV t) q w = (Inr None, w)
        | Some m \<Rightarrow>
            fst (remove (TrackV t) q w) = Inr (Some [m]) \<and>
            setCalls (snd (remove (TrackV t) q w)) = Suc (setCalls w) \<and>
            getTracks q (snd (remove (TrackV t) q w)) =
              Inr (takeWhile (\<lambda>x. \<not> trackMatches t x) ?ts @
                   tl (dropWhile (\<lambda>x. \<not> trackMatches t x) ?ts))"
  proof (cases "list_ex (trackMatches t) ?ts")
    case False
    then have "find (trackMatches t) ?ts = None" by (simp add: find_None_list_ex)
    moreover have "remove (TrackV t) q w = (Inr None, w)"
      using L False by (simp add: remove_def Let_def findIndex_takeWhile)
    ultimately show ?thesis by simp
  next
    case True
    from find_takeWhile [OF True]
    have F: "find (trackMatches t) ?ts = Some (?ts ! ?i)" and I: "?i < length ?ts" by simp_all
    have R: "remove (TrackV t) q w =
               saveAndReturn q (stored\<lparr>tracks := take ?i ?ts @ drop (Suc ?i) ?ts\<rparr>)
                 (notifyCaught (handler tracksRemoved q)
                    (TracksRemoved (guildId q) [?ts ! ?i] (Pos (int ?i))
                       (if registered tracksRemoved q then Some (snapshot stored) else None)
                       (snapshot (stored\<lparr>tracks := take ?i ?ts @ drop (Suc ?i) ?ts\<rparr>))) w)
                 (Some [?ts ! ?i])"
      using L True I by (simp add: remove_def Let_def findIndex_takeWhile jsSplice_one)
    have N: "setCalls (notifyCaught h ev w) = setCalls w" for h ev
      by (cases h) (simp_all add: notifyCaught_def invoke_def)
    show ?thesis
      by (simp add: F R sr N first_match_cut)
  qed
qed

theorem remove_track_match_rule_witness:
  "load (exQueue None) (exWorld [trackB, trackA, trackC]) =
     Inr \<lparr>current = None, previous = [], tracks = [trackB, trackA, trackC]\<rparr> \<and>
   trackMatches queryZ trackA \<and>
   fst (remove (TrackV queryZ) (exQueue None) (exWorld [trackB, trackA, trackC])) =
     Inr (Some [trackA]) \<and>
   setCalls (snd (remove (TrackV queryZ) (exQueue None) (exWorld [trackB, trackA, trackC]))) = 1 \<and>
   getTracks (exQueue None)
     (snd (remove (TrackV queryZ) (exQueue None) (exWorld [trackB, trackA, trackC]))) =
     Inr [trackB, trackC]"
proof -
  have L: "load (exQueue None) (exWorld [trackB, trackA, trackC]) =
             Inr \<lparr>current = None, previous = [], tracks = [trackB, trackA, trackC]\<rparr>"
    by (simp add: load_def ex_defs)
  have M: "trackMatches queryZ trackA" "\<not> trackMatches queryZ trackB"
    by (simp_all add: trackMatches_def present_def infoField_def ex_defs)
  have W: "setCalls (exWorld [trackB, trackA, trackC]) = 0" by (simp add: exWorld_def)
  from remove_track_match_rule
         [of queryZ trackA "exQueue None" "exWorld [trackB, trackA, trackC]"
             "\<lparr>current = None, previous = [], tracks = [trackB, trackA, trackC]\<rparr>"] L M W
  show ?thesis by simp
qed

section \<open>What add accepts\<close>

text \<open>
  C4, as the spec has it: \<^verbatim>\<open>add\<close> flattens its input by exactly one level, so a track
  two levels deep is not unwrapped. That fails: the source calls \<^verbatim>\<open>flat(2)\<close>, and a
  track inside two more arrays than the outer one is unwrapped and added.
\<close>

theorem add_unwraps_second_level:
  "validTracksOf (ArrV [ArrV [ArrV [TrackV trackA]]]) = [trackA] \<and>
   getTracks (exQueue None)
     (snd (add (ArrV [ArrV [ArrV [TrackV trackA]]]) None (exQueue None) (exWorld []))) =
     Inr [trackA]"
  by (simp add: add_def valid_defs op_defs ex_defs)

text \<open>
  C4, amended: \<^verbatim>\<open>add\<close> flattens its input by two levels before filtering. For every
  input, the batch is what one level of flattening done twice leaves of the input,
  filtered by the capability test and by \<^verbatim>\<open>isValid\<close>; for a queue with a saver, \<^verbatim>\<open>add\<close>
  stores the old list with that batch put in at one place and returns the new length.
  A track of an input array is in the batch exactly when it is valid and stands in the
  array itself, in an array inside it, or in an array inside such an array; a track
  that stands only deeper is not unwrapped and is not added.
\<close>

theorem add_flattens_two_levels:
  assumes S: "queueSaver q = Some s"
  shows "validTracksOf x =
           filter isValid
             (asTracks (filter (\<lambda>v. isTrack v \<or> isUnresolvedTrack v)
                (unwrapOnce (unwrapOnce (toArray x))))) \<and>
         (\<exists>pre post.
            getTracks q w = Inr (pre @ post) \<and>
            fst (add x index q w) = Inr (length (pre @ validTracksOf x @ post)) \<and>
            getTracks q (snd (add x index q w)) = Inr (pre @ validTracksOf x @ post)) \<and>
         (t \<in> set (validTracksOf (ArrV xs)) \<longleftrightarrow>
            isValid t \<and>
            (TrackV t \<in> set xs \<or>
             (\<exists>ys. ArrV ys \<in> set xs \<and>
                (TrackV t \<in> set ys \<or> (\<exists>zs. ArrV zs \<in> set ys \<and> TrackV t \<in> set zs)))))"
proof (intro conjI)
  show "validTracksOf x =
           filter isValid
             (asTracks (filter (\<lambda>v. isTrack v \<or> isUnresolvedTrack v)
                (unwrapOnce (unwrapOnce (toArray x)))))"
    by (simp only: validTracksOf_def jsFlat_two)
next
  obtain stored where L: "load q w = Inr stored" using S by (simp add: load_def)
  have G: "getTracks q w = Inr (tracks stored)" using L by (simp add: getTracks_def)
  note sr = saveAndReturn_effect [OF S]
  let ?vs = "validTracksOf x"
  let ?r = "add x index q w"
  show "\<exists>pre post.
            getTracks q w = Inr (pre @ post) \<and>
            fst ?r = Inr (length (pre @ ?vs @ post)) \<and>
            getTracks q (snd ?r) = Inr (pre @ ?vs @ post)"
  proof (cases "\<exists>i. index = Some i \<and> 0 \<le> i \<and> i < int (length (tracks stored))")
    case True
    then obtain i where I: "index = Some i" "0 \<le> i" "i < int (length (tracks stored))" by blast
    let ?pre = "take (nat i) (tracks stored)" and ?post = "drop (nat i) (tracks stored)"
    have "fst ?r = Inr (length (?pre @ ?vs @ ?post)) \<and> getTracks q (snd ?r) = Inr (?pre @ ?vs @ ?post)"
      using L I by (simp add: add_def Let_def sr jsSplice_insert)
    moreover have "getTracks q w = Inr (?pre @ ?post)" using G by simp
    ultimately show ?thesis by blast
  next
    case False
    have "fst ?r = Inr (length (tracks stored @ ?vs @ [])) \<and>
          getTracks q (snd ?r) = Inr (tracks stored @ ?vs @ [])"
      using L False by (cases index) (auto simp: add_def Let_def sr)
    moreover have "getTracks q w = Inr (tracks stored @ [])" using G by simp
    ultimately show ?thesis by blast
  qed
next
  have V: "validTracksOf (ArrV xs) =
             filter isValid
               (asTracks (filter (\<lambda>v. isTrack v \<or> isUnresolvedTrack v)
                  (unwrapOnce (unwrapOnce xs))))"
    by (simp only: validTracksOf_def jsFlat_two) (simp add: toArray_def)
  have M: "t \<in> set (validTracksOf (ArrV xs)) \<longleftrightarrow>
             isValid t \<and> TrackV t \<in> set (unwrapOnce (unwrapOnce xs))"
    using capability_of_track [of t] by (auto simp: V set_asTracks)
  have D: "TrackV t \<in> set (unwrapOnce (unwrapOnce xs)) \<longleftrightarrow>
             (TrackV t \<in> set xs \<or>
              (\<exists>ys. ArrV ys \<in> set xs \<and>
                 (TrackV t \<in> set ys \<or> (\<exists>zs. ArrV zs \<in> set ys \<and> TrackV t \<in> set zs))))"
    by (auto simp: set_unwrapOnce)
  show "t \<in> set (validTracksOf (ArrV xs)) \<longleftrightarrow>
            isValid t \<and>
            (TrackV t \<in> set xs \<or>
             (\<exists>ys. ArrV ys \<in> set xs \<and>
                (TrackV t \<in> set ys \<or> (\<exists>zs. ArrV zs \<in> set ys \<and> TrackV t \<in> set zs))))"
    using M D by simp
qed

theorem add_flattens_two_levels_witness:
  "queueSaver (exQueue None) = Some \<lparr>saverMaxPreviousTracks = 25\<rparr> \<and>
   validTracksOf
     (ArrV [TrackV trackA, ArrV [TrackV trackB, ArrV [TrackV trackC, ArrV [TrackV unresolvedU]]]]) =
     [trackA, trackB, trackC] \<and>
   fst (add
     (ArrV [TrackV trackA, ArrV [TrackV trackB, ArrV [TrackV trackC, ArrV [TrackV unresolvedU]]]])
     None (exQueue None) (exWorld [])) = Inr 3 \<and>
   getTracks (exQueue None)
     (snd (add
       (ArrV [TrackV trackA, ArrV [TrackV trackB, ArrV [TrackV trackC, ArrV [TrackV unresolvedU]]]])
       None (exQueue None) (exWorld []))) = Inr [trackA, trackB, trackC]"
proof -
  let ?x = "ArrV [TrackV trackA, ArrV [TrackV trackB, ArrV [TrackV trackC, ArrV [TrackV unresolvedU]]]]"
  have S: "queueSaver (exQueue None) = Some \<lparr>saverMaxPreviousTracks = 25\<rparr>"
    by (simp add: exQueue_def)
  have G: "getTracks (exQueue None) (exWorld []) = Inr []"
    by (simp add: getTracks_def load_def ex_defs)
  have E: "filter isValid
             (asTracks (filter (\<lambda>v. isTrack v \<or> isUnresolvedTrack v)
                (unwrapOnce (unwrapOnce (toArray ?x))))) = [trackA, trackB, trackC]"
    by (simp add: unwrapOnce_def toArray_def isTrack_def isUnresolvedTrack_def isValid_def
          durationOf_def jsNot_def jsIsNaN_def jsLess_def ex_defs)
  from add_flattens_two_levels [OF S, of ?x "exWorld []" None trackA "[]"]
  have V: "validTracksOf ?x =
             filter isValid
               (asTracks (filter (\<lambda>v. isTrack v \<or> isUnresolvedTrack v)
                  (unwrapOnce (unwrapOnce (toArray ?x)))))"
    and "\<exists>pre post.
            getTracks (exQueue None) (exWorld []) = Inr (pre @ post) \<and>
            fst (add ?x None (exQueue None) (exWorld [])) =
              Inr (length (pre @ validTracksOf ?x @ post)) \<and>
            getTracks (exQueue None) (snd (add ?x None (exQueue None) (exWorld []))) =
              Inr (pre @ validTracksOf ?x @ post)"
    by blast+
  then obtain pre post where
    P: "getTracks (exQueue None) (exWorld []) = Inr (pre @ post)" and
    N: "fst (add ?x None (exQueue None) (exWorld [])) =
          Inr (length (pre @ validTracksOf ?x @ post))" and
    T: "getTracks (exQueue None) (snd (add ?x None (exQueue None) (exWorld []))) =
          Inr (pre @ validTracksOf ?x @ post)"
    by blast
  from P G have "pre = []" "post = []" by simp_all
  with S V E N T show ?thesis by simp
qed

text \<open>
  C5. For a queue with a saver, \<^verbatim>\<open>add\<close> returns, and the list it stores is the old
  list with the batch \<open>validTracksOf TrackOrTracks\<close> put in at one place. No resolved
  track of the batch has a duration that is missing, NaN or below 10000: each has a
  numeric duration of at least 10000. Every unresolved track of the flattened input
  is in the batch, in the input's order, whatever its duration.
\<close>

theorem add_inserts_only_valid_tracks:
  assumes S: "queueSaver q = Some s"
  shows "\<exists>pre post.
           getTracks q w = Inr (pre @ post) \<and>
           fst (add TrackOrTracks index q w) =
             Inr (length (pre @ validTracksOf TrackOrTracks @ post)) \<and>
           getTracks q (snd (add TrackOrTracks index q w)) =
             Inr (pre @ validTracksOf TrackOrTracks @ post) \<and>
           (\<forall>t \<in> set (validTracksOf TrackOrTracks).
              isTrack (TrackV t) \<longrightarrow> (\<exists>d. durationOf t = Some (Num d) \<and> 10000 \<le> d)) \<and>
           filter (\<lambda>t. isUnresolvedTrack (TrackV t)) (validTracksOf TrackOrTracks) =
             filter (\<lambda>t. isUnresolvedTrack (TrackV t))
               (asTracks (jsFlat 2 (toArray TrackOrTracks)))"
proof -
  obtain stored where L: "load q w = Inr stored" using S by (simp add: load_def)
  have G: "getTracks q w = Inr (tracks stored)" using L by (simp add: getTracks_def)
  note sr = saveAndReturn_effect [OF S]
  let ?vs = "validTracksOf TrackOrTracks"
  let ?r = "add TrackOrTracks index q w"
  have V: "\<forall>t \<in> set ?vs. isTrack (TrackV t) \<longrightarrow> (\<exists>d. durationOf t = Some (Num d) \<and> 10000 \<le> d)"
    unfolding validTracksOf_def using valid_resolved_duration by blast
  have U: "filter (\<lambda>t. isUnresolvedTrack (TrackV t)) ?vs =
             filter (\<lambda>t. isUnresolvedTrack (TrackV t)) (asTracks (jsFlat 2 (toArray TrackOrTracks)))"
    unfolding validTracksOf_def by (rule unresolved_kept)
  show ?thesis
  proof (cases "\<exists>i. index = Some i \<and> 0 \<le> i \<and> i < int (length (tracks stored))")
    case True
    then obtain i where I: "index = Some i" "0 \<le> i" "i < int (length (tracks stored))" by blast
    let ?pre = "take (nat i) (tracks stored)" and ?post = "drop (nat i) (tracks stored)"
    have "fst ?r = Inr (length (?pre @ ?vs @ ?post)) \<and> getTracks q (snd ?r) = Inr (?pre @ ?vs @ ?post)"
      using L I by (simp add: add_def Let_def sr jsSplice_insert)
    moreover have "getTracks q w = Inr (?pre @ ?post)" using G by simp
    ultimately show ?thesis using V U by blast
  next
    case False
    have "fst ?r = Inr (length (tracks stored @ ?vs @ [])) \<and>
          getTracks q (snd ?r) = Inr (tracks stored @ ?vs @ [])"
      using L False by (cases index) (auto simp: add_def Let_def sr)
    moreover have "getTracks q w = Inr (tracks stored @ [])" using G by simp
    ultimately show ?thesis using V U by blast
  qed
qed

theorem add_inserts_only_valid_tracks_witness:
  "queueSaver (exQueue None) = Some \<lparr>saverMaxPreviousTracks = 25\<rparr> \<and>
   validTracksOf (ArrV [TrackV shortS, TrackV unresolvedU, TrackV trackC]) = [unresolvedU, trackC] \<and>
   fst (add (ArrV [TrackV shortS, TrackV unresolvedU, TrackV trackC]) None (exQueue None)
          (exWorld [trackA])) = Inr 3 \<and>
   (\<exists>ts. getTracks (exQueue None)
           (snd (add (ArrV [TrackV shortS, TrackV unresolvedU, TrackV trackC]) None (exQueue None)
                  (exWorld [trackA]))) = Inr ts \<and>
         set ts = {trackA, unresolvedU, trackC})"
proof -
  let ?x = "ArrV [TrackV shortS, TrackV unresolvedU, TrackV trackC]"
  have S: "queueSaver (exQueue None) = Some \<lparr>saverMaxPreviousTracks = 25\<rparr>"
    by (simp add: exQueue_def)
  have V: "validTracksOf ?x = [unresolvedU, trackC]"
    by (simp add: valid_defs ex_defs)
  have G: "getTracks (exQueue None) (exWorld [trackA]) = Inr [trackA]"
    by (simp add: getTracks_def load_def ex_defs)
  from add_inserts_only_valid_tracks [OF S, of "exWorld [trackA]" ?x None]
  obtain pre post where
    P: "getTracks (exQueue None) (exWorld [trackA]) = Inr (pre @ post)" and
    N: "fst (add ?x None (exQueue None) (exWorld [trackA])) =
          Inr (length (pre @ validTracksOf ?x @ post))" and
    T: "getTracks (exQueue None) (snd (add ?x None (exQueue None) (exWorld [trackA]))) =
          Inr (pre @ validTracksOf ?x @ post)"
    by blast
  from P G have A: "pre @ post = [trackA]" by simp
  then have "length (pre @ post) = 1" and "set (pre @ post) = {trackA}" by simp_all
  then have "length (pre @ validTracksOf ?x @ post) = 3"
    and "set (pre @ validTracksOf ?x @ post) = {trackA, unresolvedU, trackC}"
    using V by auto
  with S V N T show ?thesis by simp
qed

section \<open>The contract of shuffle\<close>

text \<open>
  What \<^verbatim>\<open>shuffle\<close> does when its callback is missing or returns. For a queue whose store
  can be read, with \<open>ts\<close> the tracks in it: on at most one track \<^verbatim>\<open>shuffle\<close> returns the
  length and leaves the world as it was (no \<^verbatim>\<open>set\<close>), whatever the watcher; from two
  tracks on it makes one \<^verbatim>\<open>set\<close>, stores \<open>shuffleTracks rnd ts\<close> and returns the length of
  \<open>ts\<close>. That list is the second track followed by the first on two tracks, and a
  permutation of \<open>ts\<close> when every drawn index stays at or below its loop index.
\<close>

lemma shuffle_when_callback_returns:
  assumes "getTracks q w = Inr ts"
  shows "(length ts \<le> 1 \<longrightarrow> shuffle rnd q w = (Inr (length ts), w)) \<and>
         (length ts = 2 \<longrightarrow> shuffleTracks rnd ts = [ts ! 1, ts ! 0]) \<and>
         ((\<forall>j<length ts - 1. rnd j \<le> length ts - 1 - j) \<longrightarrow>
            mset (shuffleTracks rnd ts) = mset ts) \<and>
         (2 \<le> length ts \<and> (\<forall>f ev. handler shuffled q = Some f \<longrightarrow> f ev = Returns) \<longrightarrow>
            fst (shuffle rnd q w) = Inr (length ts) \<and>
            setCalls (snd (shuffle rnd q w)) = Suc (setCalls w) \<and>
            getTracks q (snd (shuffle rnd q w)) = Inr (shuffleTracks rnd ts))"
proof -
  from assms obtain stored s where L: "load q w = Inr stored" and T: "tracks stored = ts"
    and S: "queueSaver q = Some s" using getTracks_Inr by blast
  note sr = saveAndReturn_effect [OF S]
  have short: "length ts \<le> 1 \<longrightarrow> shuffle rnd q w = (Inr (length ts), w)"
    using L T by (simp add: shuffle_def Let_def)
  have two: "length ts = 2 \<longrightarrow> shuffleTracks rnd ts = [ts ! 1, ts ! 0]"
    using swap_two [of ts] by (simp add: shuffleTracks_def)
  have many: "(\<forall>j<length ts - 1. rnd j \<le> length ts - 1 - j) \<longrightarrow>
            mset (shuffleTracks rnd ts) = mset ts"
  proof
    assume A: "\<forall>j<length ts - 1. rnd j \<le> length ts - 1 - j"
    show "mset (shuffleTracks rnd ts) = mset ts"
    proof (cases "length ts = 2")
      case True
      with swap_two [of ts] obtain a b where "ts = [a, b]"
        by (cases ts; cases "tl ts") (auto simp: numeral_2_eq_2)
      then show ?thesis by (simp add: shuffleTracks_def swapAt_def)
    next
      case False
      show ?thesis
      proof (cases "ts = []")
        case True
        then show ?thesis by (simp add: shuffleTracks_def)
      next
        case False
        then have "length ts - 1 < length ts" by (cases ts) simp_all
        with A shuffleLoop_perm [of "length ts - 1" rnd 0 ts] \<open>length ts \<noteq> 2\<close>
        show ?thesis by (simp add: shuffleTracks_def)
      qed
    qed
  qed
  have len: "length (shuffleTracks rnd ts) = length ts"
    by (rule shuffleTracks_length)
  have saved: "2 \<le> length ts \<and> (\<forall>f ev. handler shuffled q = Some f \<longrightarrow> f ev = Returns) \<longrightarrow>
            fst (shuffle rnd q w) = Inr (length ts) \<and>
            setCalls (snd (shuffle rnd q w)) = Suc (setCalls w) \<and>
            getTracks q (snd (shuffle rnd q w)) = Inr (shuffleTracks rnd ts)"
  proof
    assume A: "2 \<le> length ts \<and> (\<forall>f ev. handler shuffled q = Some f \<longrightarrow> f ev = Returns)"
    then have N: "\<not> length ts \<le> 1" by linarith
    show "fst (shuffle rnd q w) = Inr (length ts) \<and>
            setCalls (snd (shuffle rnd q w)) = Suc (setCalls w) \<and>
            getTracks q (snd (shuffle rnd q w)) = Inr (shuffleTracks rnd ts)"
    proof (cases "handler shuffled q")
      case None
      with L T N len show ?thesis by (simp add: shuffle_def Let_def sr)
    next
      case (Some f)
      with A have "\<And>ev. f ev = Returns" by blast
      with Some L T N len show ?thesis by (simp add: shuffle_def Let_def sr invoke_def)
    qed
  qed
  from short two many saved show ?thesis by blast
qed

text \<open>
  C6. On three tracks and more \<^verbatim>\<open>shuffle\<close> should, for every sequence of random
  choices, store a permutation and return the original length. It does when the
  \<^verbatim>\<open>shuffled\<close> callback is missing or returns. The call of the callback stands outside
  any \<^verbatim>\<open>try\<close>, the defect of C2: with a callback that throws and three tracks in the
  store, \<^verbatim>\<open>shuffle\<close> returns no length and makes no \<^verbatim>\<open>set\<close>, whatever the random
  choices; the same holds on two tracks, where the swap is not saved. Without a watcher
  the same call returns 3 and makes one \<^verbatim>\<open>set\<close>.
\<close>

theorem shuffle_returns_no_length_when_callback_throws:
  "fst (shuffle rnd (exQueue (Some throwingWatcher)) (exWorld [trackA, trackB, trackC])) =
     Inl WatcherError \<and>
   setCalls (snd (shuffle rnd (exQueue (Some throwingWatcher)) (exWorld [trackA, trackB, trackC]))) = 0 \<and>
   fst (shuffle rnd (exQueue (Some throwingWatcher)) (exWorld [trackA, trackB])) =
     Inl WatcherError \<and>
   fst (shuffle rnd (exQueue None) (exWorld [trackA, trackB, trackC])) = Inr 3 \<and>
   setCalls (snd (shuffle rnd (exQueue None) (exWorld [trackA, trackB, trackC]))) = 1"
proof (intro conjI)
  show "fst (shuffle rnd (exQueue (Some throwingWatcher)) (exWorld [trackA, trackB, trackC])) =
          Inl WatcherError"
    by (simp add: shuffle_def op_defs ex_defs)
  show "setCalls (snd (shuffle rnd (exQueue (Some throwingWatcher))
                         (exWorld [trackA, trackB, trackC]))) = 0"
    by (simp add: shuffle_def op_defs ex_defs)
  show "fst (shuffle rnd (exQueue (Some throwingWatcher)) (exWorld [trackA, trackB])) =
          Inl WatcherError"
    by (simp add: shuffle_def op_defs ex_defs)
  show "fst (shuffle rnd (exQueue None) (exWorld [trackA, trackB, trackC])) = Inr 3"
    by (simp add: shuffle_def shuffleTracks_length op_defs ex_defs)
  show "setCalls (snd (shuffle rnd (exQueue None) (exWorld [trackA, trackB, trackC]))) = 1"
    by (simp add: shuffle_def shuffleTracks_length op_defs ex_defs)
qed

section \<open>Snapshots handed to the watcher\<close>

text \<open>
  C7. Every notifying mutation should hand the watcher the state before the mutation
  as \<^verbatim>\<open>oldStoredQueue\<close> and the state after it as \<^verbatim>\<open>newStoredQueue\<close>. \<^verbatim>\<open>add\<close> does, and so
  does the \<^verbatim>\<open>tracksRemoved\<close> call of \<^verbatim>\<open>splice\<close>; the \<^verbatim>\<open>tracksAdd\<close> call of \<^verbatim>\<open>splice\<close>
  stands before the native splice. Splicing \<open>trackB\<close> in at position 0 of a list that
  holds \<open>trackA\<close>: \<^verbatim>\<open>tracksAdd\<close> gets the list \<open>[trackA]\<close> in both snapshots, while
  \<^verbatim>\<open>tracksRemoved\<close> of the same call gets \<open>[trackB, trackA]\<close> as the new list, which is
  the list saved. The same insertion through \<^verbatim>\<open>add\<close> hands \<^verbatim>\<open>tracksAdd\<close> the list
  \<open>[trackA]\<close> as the old one and \<open>[trackB, trackA]\<close> as the new one.
\<close>

theorem splice_tracksAdd_new_snapshot_is_old:
  "notified (snd (splice 0 0 (TrackV trackB) (exQueue (Some quietWatcher)) (exWorld [trackA]))) =
     [TracksAdd ''g'' [trackB] 0
        (Some \<lparr>current = None, previous = [], tracks = [trackA]\<rparr>)
        \<lparr>current = None, previous = [], tracks = [trackA]\<rparr>,
      TracksRemoved ''g'' [] (Pos 0)
        (Some \<lparr>current = None, previous = [], tracks = [trackA]\<rparr>)
        \<lparr>current = None, previous = [], tracks = [trackB, trackA]\<rparr>] \<and>
   getTracks (exQueue None)
     (snd (splice 0 0 (TrackV trackB) (exQueue (Some quietWatcher)) (exWorld [trackA]))) =
     Inr [trackB, trackA] \<and>
   notified (snd (add (TrackV trackB) (Some 0) (exQueue (Some quietWatcher)) (exWorld [trackA]))) =
     [TracksAdd ''g'' [trackB] 0
        (Some \<lparr>current = None, previous = [], tracks = [trackA]\<rparr>)
        \<lparr>current = None, previous = [], tracks = [trackB, trackA]\<rparr>]"
proof (intro conjI)
  show "notified (snd (splice 0 0 (TrackV trackB) (exQueue (Some quietWatcher)) (exWorld [trackA]))) =
     [TracksAdd ''g'' [trackB] 0
        (Some \<lparr>current = None, previous = [], tracks = [trackA]\<rparr>)
        \<lparr>current = None, previous = [], tracks = [trackA]\<rparr>,
      TracksRemoved ''g'' [] (Pos 0)
        (Some \<lparr>current = None, previous = [], tracks = [trackA]\<rparr>)
        \<lparr>current = None, previous = [], tracks = [trackB, trackA]\<rparr>]"
    by (simp add: splice_def truthy_def valid_defs op_defs ex_defs)
  show "getTracks (exQueue None)
          (snd (splice 0 0 (TrackV trackB) (exQueue (Some quietWatcher)) (exWorld [trackA]))) =
        Inr [trackB, trackA]"
    by (simp add: splice_def truthy_def valid_defs op_defs ex_defs)
  show "notified (snd (add (TrackV trackB) (Some 0) (exQueue (Some quietWatcher)) (exWorld [trackA]))) =
     [TracksAdd ''g'' [trackB] 0
        (Some \<lparr>current = None, previous = [], tracks = [trackA]\<rparr>)
        \<lparr>current = None, previous = [], tracks = [trackB, trackA]\<rparr>]"
    by (simp add: add_def valid_defs op_defs ex_defs)
qed

section \<open>remove with an array of indices\<close>

text \<open>
  C8. With an array of numbers \<^verbatim>\<open>remove\<close> should take out the tracks that stood at
  those positions before the call. The loop splices one index after the other out of
  the same array, so every removal shifts the tracks behind it: on
  \<open>[trackA, trackB, trackC]\<close> the indices 0 and 1 remove \<open>trackA\<close> and \<open>trackC\<close>, and
  \<open>trackB\<close>, which stood at position 1, stays. The watcher is told the positions 0 and
  1 next to the list as it was before the call.
\<close>

theorem remove_indices_shift:
  "fst (remove (ArrV [NumV 0, NumV 1]) (exQueue None) (exWorld [trackA, trackB, trackC])) =
     Inr (Some [trackA, trackC]) \<and>
   getTracks (exQueue None)
     (snd (remove (ArrV [NumV 0, NumV 1]) (exQueue None) (exWorld [trackA, trackB, trackC]))) =
     Inr [trackB] \<and>
   notified
     (snd (remove (ArrV [NumV 0, NumV 1]) (exQueue (Some quietWatcher))
            (exWorld [trackA, trackB, trackC]))) =
     [TracksRemoved ''g'' [trackA, trackC] (PosList [0, 1])
        (Some \<lparr>current = None, previous = [], tracks = [trackA, trackB, trackC]\<rparr>)
        \<lparr>current = None, previous = [], tracks = [trackB]\<rparr>]"
proof (intro conjI)
  show "fst (remove (ArrV [NumV 0, NumV 1]) (exQueue None) (exWorld [trackA, trackB, trackC])) =
          Inr (Some [trackA, trackC])"
    by (simp add: remove_def isNumber_def op_defs ex_defs)
  show "getTracks (exQueue None)
          (snd (remove (ArrV [NumV 0, NumV 1]) (exQueue None) (exWorld [trackA, trackB, trackC]))) =
        Inr [trackB]"
    by (simp add: remove_def isNumber_def op_defs ex_defs)
  show "notified
          (snd (remove (ArrV [NumV 0, NumV 1]) (exQueue (Some quietWatcher))
                 (exWorld [trackA, trackB, trackC]))) =
        [TracksRemoved ''g'' [trackA, trackC] (PosList [0, 1])
           (Some \<lparr>current = None, previous = [], tracks = [trackA, trackB, trackC]\<rparr>)
           \<lparr>current = None, previous = [], tracks = [trackB]\<rparr>]"
    by (simp add: remove_def isNumber_def op_defs ex_defs)
qed

section \<open>Bounds checks\<close>

text \<open>
  The guards do their work on integers. For a queue whose store can be read, with \<open>ts\<close>
  the tracks in it: \<^verbatim>\<open>moveTrack\<close> with an integer \<open>from\<close> outside \<open>[0, length)\<close> returns
  and leaves the world as it was (no \<^verbatim>\<open>set\<close>, same store), and \<^verbatim>\<open>replaceTrack\<close> with such
  an index returns \<^verbatim>\<open>false\<close> and leaves the world as it was. In range each makes one
  \<^verbatim>\<open>set\<close>: \<^verbatim>\<open>moveTrack\<close> stores the list with the track taken out and spliced in at
  \<open>to\<close>, \<^verbatim>\<open>replaceTrack\<close> stores the list with the track replaced and returns \<^verbatim>\<open>true\<close>.
\<close>

lemma bounds_checked_integers:
  assumes "getTracks q w = Inr ts"
  shows "(frm < 0 \<or> int (length ts) \<le> frm \<longrightarrow> moveTrack (Num frm) to q w = (Inr (), w)) \<and>
         (index < 0 \<or> int (length ts) \<le> index \<longrightarrow>
            replaceTrack (Num index) t q w = (Inr False, w)) \<and>
         (0 \<le> frm \<and> frm < int (length ts) \<longrightarrow>
            fst (moveTrack (Num frm) to q w) = Inr () \<and>
            setCalls (snd (moveTrack (Num frm) to q w)) = Suc (setCalls w) \<and>
            getTracks q (snd (moveTrack (Num frm) to q w)) =
              Inr (snd (jsSplice (toInteger to) 0 [ts ! nat frm]
                     (take (nat frm) ts @ drop (Suc (nat frm)) ts)))) \<and>
         (0 \<le> index \<and> index < int (length ts) \<longrightarrow>
            fst (replaceTrack (Num index) t q w) = Inr True \<and>
            setCalls (snd (replaceTrack (Num index) t q w)) = Suc (setCalls w) \<and>
            getTracks q (snd (replaceTrack (Num index) t q w)) = Inr (ts[nat index := t]))"
proof -
  from assms obtain stored s where L: "load q w = Inr stored" and T: "tracks stored = ts"
    and S: "queueSaver q = Some s" using getTracks_Inr by blast
  note sr = saveAndReturn_effect [OF S]
  have m0: "frm < 0 \<or> int (length ts) \<le> frm \<longrightarrow> moveTrack (Num frm) to q w = (Inr (), w)"
    using L T by (auto simp: moveTrack_def numLt_def numGe_def)
  have r0: "index < 0 \<or> int (length ts) \<le> index \<longrightarrow>
              replaceTrack (Num index) t q w = (Inr False, w)"
    using L T by (auto simp: replaceTrack_def numLt_def numGe_def)
  have m1: "0 \<le> frm \<and> frm < int (length ts) \<longrightarrow>
            fst (moveTrack (Num frm) to q w) = Inr () \<and>
            setCalls (snd (moveTrack (Num frm) to q w)) = Suc (setCalls w) \<and>
            getTracks q (snd (moveTrack (Num frm) to q w)) =
              Inr (snd (jsSplice (toInteger to) 0 [ts ! nat frm]
                     (take (nat frm) ts @ drop (Suc (nat frm)) ts)))"
  proof
    assume R: "0 \<le> frm \<and> frm < int (length ts)"
    then have "nat frm < length ts" by linarith
    from jsSplice_one [OF this] R
    have "jsSplice frm 1 [] ts = ([ts ! nat frm], take (nat frm) ts @ drop (Suc (nat frm)) ts)"
      by simp
    with L T R show "fst (moveTrack (Num frm) to q w) = Inr () \<and>
            setCalls (snd (moveTrack (Num frm) to q w)) = Suc (setCalls w) \<and>
            getTracks q (snd (moveTrack (Num frm) to q w)) =
              Inr (snd (jsSplice (toInteger to) 0 [ts ! nat frm]
                     (take (nat frm) ts @ drop (Suc (nat frm)) ts)))"
      by (simp add: moveTrack_def numLt_def numGe_def toInteger_def sr)
  qed
  have r1: "0 \<le> index \<and> index < int (length ts) \<longrightarrow>
            fst (replaceTrack (Num index) t q w) = Inr True \<and>
            setCalls (snd (replaceTrack (Num index) t q w)) = Suc (setCalls w) \<and>
            getTracks q (snd (replaceTrack (Num index) t q w)) = Inr (ts[nat index := t])"
    using L T by (auto simp: replaceTrack_def numLt_def numGe_def assignAt_def sr)
  from m0 r0 m1 r1 show ?thesis by blast
qed

text \<open>
  C9. Every out-of-range index should make \<^verbatim>\<open>moveTrack\<close>, \<^verbatim>\<open>replaceTrack\<close> and
  \<^verbatim>\<open>swapTracks\<close> return without a save. NaN is a number outside \<open>[0, length)\<close>, and both
  comparisons of the guard \<^verbatim>\<open>index < 0 || index >= length\<close> are false of it. On the list
  \<open>[trackA, trackB]\<close>, \<^verbatim>\<open>moveTrack(NaN, 1)\<close> splices at index 0 and saves
  \<open>[trackB, trackA]\<close>, and \<^verbatim>\<open>replaceTrack(NaN, trackC)\<close> saves and returns \<^verbatim>\<open>true\<close> with no
  track replaced; the integer 5, out of range as well, is turned away by both.
\<close>

theorem NaN_index_passes_the_bounds_guards:
  "fst (moveTrack NaN (Num 1) (exQueue None) (exWorld [trackA, trackB])) = Inr () \<and>
   setCalls (snd (moveTrack NaN (Num 1) (exQueue None) (exWorld [trackA, trackB]))) = 1 \<and>
   getTracks (exQueue None) (snd (moveTrack NaN (Num 1) (exQueue None) (exWorld [trackA, trackB]))) =
     Inr [trackB, trackA] \<and>
   fst (replaceTrack NaN trackC (exQueue None) (exWorld [trackA, trackB])) = Inr True \<and>
   setCalls (snd (replaceTrack NaN trackC (exQueue None) (exWorld [trackA, trackB]))) = 1 \<and>
   getTracks (exQueue None) (snd (replaceTrack NaN trackC (exQueue None) (exWorld [trackA, trackB]))) =
     Inr [trackA, trackB] \<and>
   moveTrack (Num 5) (Num 1) (exQueue None) (exWorld [trackA, trackB]) =
     (Inr (), exWorld [trackA, trackB]) \<and>
   replaceTrack (Num 5) trackC (exQueue None) (exWorld [trackA, trackB]) =
     (Inr False, exWorld [trackA, trackB])"
proof (intro conjI)
  show "fst (moveTrack NaN (Num 1) (exQueue None) (exWorld [trackA, trackB])) = Inr ()"
    by (simp add: moveTrack_def numLt_def numGe_def toInteger_def op_defs ex_defs)
  show "setCalls (snd (moveTrack NaN (Num 1) (exQueue None) (exWorld [trackA, trackB]))) = 1"
    by (simp add: moveTrack_def numLt_def numGe_def toInteger_def op_defs ex_defs)
  show "getTracks (exQueue None)
          (snd (moveTrack NaN (Num 1) (exQueue None) (exWorld [trackA, trackB]))) =
        Inr [trackB, trackA]"
    by (simp add: moveTrack_def numLt_def numGe_def toInteger_def op_defs ex_defs)
  show "fst (replaceTrack NaN trackC (exQueue None) (exWorld [trackA, trackB])) = Inr True"
    by (simp add: replaceTrack_def numLt_def numGe_def assignAt_def op_defs ex_defs)
  show "setCalls (snd (replaceTrack NaN trackC (exQueue None) (exWorld [trackA, trackB]))) = 1"
    by (simp add: replaceTrack_def numLt_def numGe_def assignAt_def op_defs ex_defs)
  show "getTracks (exQueue None)
          (snd (replaceTrack NaN trackC (exQueue None) (exWorld [trackA, trackB]))) =
        Inr [trackA, trackB]"
    by (simp add: replaceTrack_def numLt_def numGe_def assignAt_def op_defs ex_defs)
  show "moveTrack (Num 5) (Num 1) (exQueue None) (exWorld [trackA, trackB]) =
          (Inr (), exWorld [trackA, trackB])"
    by (simp add: moveTrack_def numLt_def numGe_def load_def ex_defs)
  show "replaceTrack (Num 5) trackC (exQueue None) (exWorld [trackA, trackB]) =
          (Inr False, exWorld [trackA, trackB])"
    by (simp add: replaceTrack_def numLt_def numGe_def load_def ex_defs)
qed

section \<open>Constructing a Queue\<close>

text \<open>
  C10. \<^verbatim>\<open>queueOptions\<close> is declared optional, and the constructor fails without it:
  \<^verbatim>\<open>queueOptions.queueChangesWatcher\<close> is read with no guard. With \<^verbatim>\<open>queueOptions\<close>
  given, the constructor returns a queue whatever \<^verbatim>\<open>data\<close> and \<^verbatim>\<open>QueueSaver\<close> are,
  also when both are left out.
\<close>

theorem Queue_constructor_needs_queueOptions:
  "Queue_constructor gid data saver None = Inl TypeError \<and>
   (\<exists>q. Queue_constructor gid data saver (Some opts) = Inr q) \<and>
   (\<exists>q. Queue_constructor gid None None (Some opts) = Inr q)"
  by (simp add: Queue_constructor_def)

end
